theory Spec2Isabelle
  imports Main
begin

section \<open>Core types (src/core/types.py)\<close>

datatype EntityType =
  MODULE | CLASS | FUNCTION | METHOD | PARAMETER | DECORATOR | IMPORT | DOCSTRING | FILE

fun entity_type_value :: "EntityType \<Rightarrow> string" where
  "entity_type_value MODULE = ''Module''"
| "entity_type_value CLASS = ''Class''"
| "entity_type_value FUNCTION = ''Function''"
| "entity_type_value METHOD = ''Method''"
| "entity_type_value PARAMETER = ''Parameter''"
| "entity_type_value DECORATOR = ''Decorator''"
| "entity_type_value IMPORT = ''Import''"
| "entity_type_value DOCSTRING = ''Docstring''"
| "entity_type_value FILE = ''File''"

datatype RelationshipType =
  CONTAINS | IMPORTS | INHERITS_FROM | CALLS | DECORATED_BY | HAS_PARAMETER
  | DOCUMENTED_BY | DEPENDS_ON

fun rel_type_value :: "RelationshipType \<Rightarrow> string" where
  "rel_type_value CONTAINS = ''CONTAINS''"
| "rel_type_value IMPORTS = ''IMPORTS''"
| "rel_type_value INHERITS_FROM = ''INHERITS_FROM''"
| "rel_type_value CALLS = ''CALLS''"
| "rel_type_value DECORATED_BY = ''DECORATED_BY''"
| "rel_type_value HAS_PARAMETER = ''HAS_PARAMETER''"
| "rel_type_value DOCUMENTED_BY = ''DOCUMENTED_BY''"
| "rel_type_value DEPENDS_ON = ''DEPENDS_ON''"

datatype IndexJobStatus = PENDING | IN_PROGRESS | COMPLETED | FAILED

text \<open>The exceptions of src/core/exceptions.py that the modelled paths raise.\<close>

datatype exn =
  ParsingError | IndexerError | RepositoryError | Neo4jConnectionError | GraphQueryError

section \<open>Python values and dictionaries\<close>

text \<open>
  The values the parser stores in property dictionaries: text, integers, booleans,
  \<open>None\<close> and lists of text. A \<open>dict\<close> is an association list with distinct keys in
  insertion order; assigning to a key that is present keeps its position.
\<close>

datatype pyval = PStr string | PInt int | PBool bool | PNone | PList "string list"

type_synonym pydict = "(string \<times> pyval) list"

fun dict_set :: "string \<Rightarrow> pyval \<Rightarrow> pydict \<Rightarrow> pydict" where
  "dict_set k v [] = [(k, v)]"
| "dict_set k v ((k', v') # d) =
     (if k' = k then (k', v) # d else (k', v') # dict_set k v d)"

text \<open>\<open>{**d, **e}\<close>: the entries of \<open>e\<close> are assigned into \<open>d\<close> in order.\<close>

definition dict_update :: "pydict \<Rightarrow> pydict \<Rightarrow> pydict" where
  "dict_update d e = fold (\<lambda>(k, v). dict_set k v) e d"

text \<open>\<open>d.pop(k)\<close>: the value and the dictionary without the key; \<open>None\<close> is KeyError.\<close>

definition dict_pop :: "string \<Rightarrow> pydict \<Rightarrow> (pyval \<times> pydict) option" where
  "dict_pop k d =
     (case map_of d k of
        None \<Rightarrow> None
      | Some v \<Rightarrow> Some (v, filter (\<lambda>kv. fst kv \<noteq> k) d))"

text \<open>\<open>sep.join(xs)\<close>.\<close>

fun join :: "string \<Rightarrow> string list \<Rightarrow> string" where
  "join sep [] = []"
| "join sep [x] = x"
| "join sep (x # y # ys) = x @ sep @ join sep (y # ys)"

section \<open>Extracted entities and relationships (src/agents/indexer/parser.py)\<close>

record EntityInfo =
  entity_type :: EntityType
  name :: string
  line_number :: int
  properties :: pydict

record RelationshipInfo =
  rel_type :: RelationshipType
  source :: string
  target :: string
  rel_properties :: pydict

text \<open>
  \<open>EntityInfo.to_dict\<close>: the dictionary display lists \<open>entity_type\<close>, \<open>name\<close> and
  \<open>line_number\<close> first and unpacks \<open>properties\<close> last, so a property with one of these
  keys replaces the value written before it.
\<close>

definition to_dict :: "EntityInfo \<Rightarrow> pydict" where
  "to_dict e =
     dict_update
       [(''entity_type'', PStr (entity_type_value (entity_type e))),
        (''name'', PStr (name e)),
        (''line_number'', PInt (line_number e))]
       (properties e)"

definition rel_to_dict :: "RelationshipInfo \<Rightarrow> pydict" where
  "rel_to_dict r =
     dict_update
       [(''rel_type'', PStr (rel_type_value (rel_type r))),
        (''source'', PStr (source r)),
        (''target'', PStr (target r))]
       (rel_properties r)"

section \<open>The syntax tree the parser walks\<close>

text \<open>
  The tree \<open>ast.parse\<close> returns, restricted to what the parser reads. \<open>ast.unparse\<close> is
  a library function and is not modelled: where the parser calls it, the tree carries
  the text it returns.
  \<^item> An expression is a \<open>Name\<close> with its \<open>id\<close>, an \<open>Attribute\<close> with the text
    \<open>ast.unparse\<close> returns for the node, a \<open>Call\<close> with its \<open>func\<close>, or any other
    expression. An \<open>Attribute\<close> on which \<open>ast.unparse\<close> raises is an \<open>OtherExpr\<close>: the
    parser finds no name for either.
  \<^item> A function definition keeps \<open>node.args.args\<close> only, each with \<open>arg.arg\<close>,
    \<open>arg.lineno\<close> and, when \<open>arg.annotation\<close> is present, the text \<open>ast.unparse\<close> returns
    for it.
  \<^item> \<open>FuncDef False\<close> is \<open>ast.FunctionDef\<close>, \<open>FuncDef True\<close> is \<open>ast.AsyncFunctionDef\<close>.
  \<^item> \<open>ExprStr s\<close> is an expression statement whose value is a string constant, \<open>s\<close>
    being the text \<open>ast.get_docstring\<close> returns for it.
  \<^item> \<open>OtherNode cs\<close> is any other node, with its child nodes in the order of
    \<open>ast.iter_child_nodes\<close>.
\<close>

datatype expr =
  Name string
  | Attribute string
  | Call expr
  | OtherExpr

datatype arg = Arg (arg_name: string) (annotation: "string option") (arg_lineno: int)

datatype stmt =
  ClassDef string "expr list" "expr list" "stmt list" int
  | FuncDef bool string "arg list" "expr list" "stmt list" int
  | Import "string list" int
  | ImportFrom "string option" "string list" int
  | ExprStr string
  | OtherNode "stmt list"

text \<open>
  What \<open>parse_file\<close> starts from: \<open>SyntaxError\<close> when reading the file, \<open>ast.parse\<close> or
  \<open>ast.unparse\<close> on an annotation the parser reads raises (the parser turns each into
  ParsingError), the module's body otherwise.
\<close>

datatype py_source = SyntaxError | Module "stmt list"

fun get_docstring :: "stmt list \<Rightarrow> string option" where
  "get_docstring (ExprStr s # rest) = Some s"
| "get_docstring body = None"

text \<open>\<open>x or ""\<close> for an optional text.\<close>

definition or_empty :: "string option \<Rightarrow> string" where
  "or_empty x = (case x of None \<Rightarrow> [] | Some s \<Rightarrow> s)"

fun children :: "stmt \<Rightarrow> stmt list" where
  "children (ClassDef n bases decs body ln) = body"
| "children (FuncDef a n args decs body ln) = body"
| "children (OtherNode cs) = cs"
| "children s = []"

fun node_count :: "stmt \<Rightarrow> nat" where
  "node_count (ClassDef n bases decs body ln) = Suc (sum_list (map node_count body))"
| "node_count (FuncDef a n args decs body ln) = Suc (sum_list (map node_count body))"
| "node_count (OtherNode cs) = Suc (sum_list (map node_count cs))"
| "node_count s = Suc 0"

text \<open>
  \<open>ast.walk\<close>: breadth first, from a queue. Each node is paired with whether it is an
  element of \<open>tree.body\<close>: \<open>node in tree.body\<close> compares nodes by identity, which a
  value of the tree does not carry.
\<close>

function walk :: "(bool \<times> stmt) list \<Rightarrow> (bool \<times> stmt) list" where
  "walk [] = []"
| "walk ((tl_flag, n) # todo) = (tl_flag, n) # walk (todo @ map (Pair False) (children n))"
  by pat_completeness auto
termination
proof (relation "measure (\<lambda>q. sum_list (map (node_count \<circ> snd) q))")
  show "wf (measure (\<lambda>q. sum_list (map (node_count \<circ> snd) q)))"
    by simp
next
  fix tl_flag :: bool and n :: stmt and todo :: "(bool \<times> stmt) list"
  have "node_count n = Suc (sum_list (map node_count (children n)))"
    by (cases n) simp_all
  then show "(todo @ map (Pair False) (children n), (tl_flag, n) # todo)
      \<in> measure (\<lambda>q. sum_list (map (node_count \<circ> snd) q))"
    by (simp add: comp_def)
qed

section \<open>PythonASTParser\<close>

record parser =
  entities :: "EntityInfo list"
  relationships :: "RelationshipInfo list"

definition append_entity :: "EntityInfo \<Rightarrow> parser \<Rightarrow> parser" where
  "append_entity e st = st\<lparr>entities := entities st @ [e]\<rparr>"

definition append_relationship :: "RelationshipInfo \<Rightarrow> parser \<Rightarrow> parser" where
  "append_relationship r st = st\<lparr>relationships := relationships st @ [r]\<rparr>"

definition RelInfo :: "RelationshipType \<Rightarrow> string \<Rightarrow> string \<Rightarrow> RelationshipInfo" where
  "RelInfo t s d = \<lparr>rel_type = t, source = s, target = d, rel_properties = []\<rparr>"

definition EntInfo :: "EntityType \<Rightarrow> string \<Rightarrow> int \<Rightarrow> pydict \<Rightarrow> EntityInfo" where
  "EntInfo t n ln ps = \<lparr>entity_type = t, name = n, line_number = ln, properties = ps\<rparr>"

fun get_name_from_node :: "expr \<Rightarrow> string option" where
  "get_name_from_node (Name i) = Some i"
| "get_name_from_node (Attribute rendered) = Some rendered"
| "get_name_from_node (Call func) = get_name_from_node func"
| "get_name_from_node OtherExpr = None"

text \<open>\<open>if name:\<close> for an optional text: present and not empty.\<close>

definition truthy :: "string option \<Rightarrow> bool" where
  "truthy x = (case x of None \<Rightarrow> False | Some s \<Rightarrow> s \<noteq> [])"

definition add_parameter :: "string \<Rightarrow> arg \<Rightarrow> nat \<Rightarrow> parser \<Rightarrow> parser" where
  "add_parameter parent a position st =
     (let param_name = parent @ ''.param.'' @ arg_name a;
          type_annotation =
            (case annotation a of None \<Rightarrow> PNone | Some rendered \<Rightarrow> PStr rendered)
      in append_relationship (RelInfo HAS_PARAMETER parent param_name)
           (append_entity
              (EntInfo PARAMETER param_name (arg_lineno a)
                 [(''name'', PStr (arg_name a)),
                  (''type_annotation'', type_annotation),
                  (''position'', PInt (int position))])
              st))"

definition add_decorator :: "string \<Rightarrow> string \<Rightarrow> parser \<Rightarrow> parser" where
  "add_decorator parent decorator_name st =
     (let dec_name = parent @ ''.decorator.'' @ decorator_name
      in append_relationship (RelInfo DECORATED_BY parent decorator_name)
           (append_entity (EntInfo DECORATOR dec_name 0 [(''name'', PStr decorator_name)]) st))"

definition add_docstring :: "string \<Rightarrow> string \<Rightarrow> int \<Rightarrow> parser \<Rightarrow> parser" where
  "add_docstring parent content ln st =
     (let doc_name = parent @ ''.docstring''
      in append_relationship (RelInfo DOCUMENTED_BY parent doc_name)
           (append_entity (EntInfo DOCSTRING doc_name ln [(''content'', PStr content)]) st))"

text \<open>
  \<open>_parse_function(node, is_method, parent_class)\<close>, the node given by its fields.
  \<open>parent_class\<close> is read only when \<open>is_method\<close> holds.
\<close>

definition parse_function ::
  "string \<Rightarrow> bool \<Rightarrow> string \<Rightarrow> arg list \<Rightarrow> expr list \<Rightarrow> stmt list \<Rightarrow> int \<Rightarrow> bool \<Rightarrow> string
    \<Rightarrow> parser \<Rightarrow> parser" where
  "parse_function module_path is_async fname args decorator_list body lineno is_method
       parent_class st =
     (let etype = (if is_method then METHOD else FUNCTION);
          full_name = (if is_method then parent_class @ ''.'' @ fname
                       else module_path @ ''.'' @ fname);
          docstring = or_empty (get_docstring body);
          signature = fname @ ''('' @ join '', '' (map arg_name args) @ '')'';
          is_static = (is_method \<and>
             list_ex (\<lambda>d. get_name_from_node d = Some ''staticmethod'') decorator_list);
          is_classmethod = (is_method \<and>
             list_ex (\<lambda>d. get_name_from_node d \<noteq> Some ''staticmethod'' \<and>
                          get_name_from_node d = Some ''classmethod'') decorator_list);
          props = [(''name'', PStr fname),
                   (''module_path'', PStr module_path),
                   (''docstring'', PStr docstring),
                   (''is_async'', PBool is_async),
                   (''signature'', PStr signature)]
                  @ (if is_method
                     then [(''is_static'', PBool is_static),
                           (''is_classmethod'', PBool is_classmethod)]
                     else []);
          st1 = append_entity (EntInfo etype full_name lineno props) st;
          parent = (if is_method then parent_class else module_path);
          st2 = append_relationship (RelInfo CONTAINS parent full_name) st1;
          st3 = fold (\<lambda>(i, a). add_parameter full_name a i) (enumerate 0 args) st2;
          st4 = fold (\<lambda>d st. let decorator_name = get_name_from_node d in
                         if truthy decorator_name \<and>
                            the decorator_name \<notin> set [''staticmethod'', ''classmethod'']
                         then add_decorator full_name (the decorator_name) st else st)
                  decorator_list st3
      in if docstring \<noteq> [] then add_docstring full_name docstring lineno st4 else st4)"

fun parse_method :: "string \<Rightarrow> string \<Rightarrow> stmt \<Rightarrow> parser \<Rightarrow> parser" where
  "parse_method module_path class_name (FuncDef a n args decs body ln) st =
     parse_function module_path a n args decs body ln True class_name st"
| "parse_method module_path class_name item st = st"

definition parse_class ::
  "string \<Rightarrow> string \<Rightarrow> expr list \<Rightarrow> expr list \<Rightarrow> stmt list \<Rightarrow> int \<Rightarrow> parser \<Rightarrow> parser" where
  "parse_class module_path cname bases decorator_list body lineno st =
     (let class_name = module_path @ ''.'' @ cname;
          docstring = or_empty (get_docstring body);
          is_abstract = list_ex (\<lambda>d. d = Name ''ABC'') bases;
          st1 = append_entity
                  (EntInfo CLASS class_name lineno
                     [(''name'', PStr cname),
                      (''module_path'', PStr module_path),
                      (''docstring'', PStr docstring),
                      (''is_abstract'', PBool is_abstract)])
                  st;
          st2 = append_relationship (RelInfo CONTAINS module_path class_name) st1;
          st3 = fold (\<lambda>base st. let base_name = get_name_from_node base in
                         if truthy base_name \<and> the base_name \<noteq> ''ABC''
                         then append_relationship
                                (RelInfo INHERITS_FROM class_name (the base_name)) st
                         else st)
                  bases st2;
          st4 = fold (\<lambda>d st. let decorator_name = get_name_from_node d in
                         if truthy decorator_name
                         then add_decorator class_name (the decorator_name) st else st)
                  decorator_list st3;
          st5 = fold (parse_method module_path class_name) body st4
      in if docstring \<noteq> [] then add_docstring class_name docstring lineno st5 else st5)"

definition parse_import_plain :: "string \<Rightarrow> string list \<Rightarrow> int \<Rightarrow> parser \<Rightarrow> parser" where
  "parse_import_plain module_path names lineno st =
     fold (\<lambda>alias st.
             append_relationship (RelInfo IMPORTS module_path alias)
               (append_entity
                  (EntInfo IMPORT (module_path @ ''.import.'' @ alias) lineno
                     [(''module_name'', PStr alias),
                      (''imported_names'', PList [alias]),
                      (''is_from_import'', PBool False)])
                  st))
          names st"

definition parse_import_from ::
  "string \<Rightarrow> string option \<Rightarrow> string list \<Rightarrow> int \<Rightarrow> parser \<Rightarrow> parser" where
  "parse_import_from module_path node_module names lineno st =
     (let module = or_empty node_module;
          imported_names = names;
          import_name = module_path @ ''.import.'' @ module;
          st1 = append_entity
                  (EntInfo IMPORT import_name lineno
                     [(''module_name'', PStr module),
                      (''imported_names'', PList imported_names),
                      (''is_from_import'', PBool True)])
                  st
      in if module \<noteq> []
         then append_relationship (RelInfo IMPORTS module_path module) st1
         else st1)"

text \<open>The body of the loop over \<open>ast.walk(tree)\<close> in \<open>parse_file\<close>.\<close>

fun visit :: "string \<Rightarrow> bool \<times> stmt \<Rightarrow> parser \<Rightarrow> parser" where
  "visit module_path (tl_flag, ClassDef n bases decs body ln) st =
     parse_class module_path n bases decs body ln st"
| "visit module_path (tl_flag, FuncDef a n args decs body ln) st =
     (if tl_flag then parse_function module_path a n args decs body ln False [] st else st)"
| "visit module_path (tl_flag, Import names ln) st = parse_import_plain module_path names ln st"
| "visit module_path (tl_flag, ImportFrom m names ln) st =
     parse_import_from module_path m names ln st"
| "visit module_path (tl_flag, node) st = st"

definition module_entity :: "string \<Rightarrow> string \<Rightarrow> stmt list \<Rightarrow> EntityInfo" where
  "module_entity file_path module_path body =
     EntInfo MODULE module_path 1
       [(''path'', PStr module_path),
        (''file_path'', PStr file_path),
        (''docstring'', PStr (or_empty (get_docstring body)))]"

definition parse_file ::
  "string \<Rightarrow> string \<Rightarrow> py_source \<Rightarrow> exn + (EntityInfo list \<times> RelationshipInfo list)" where
  "parse_file file_path module_path src =
     (case src of
        SyntaxError \<Rightarrow> Inl ParsingError
      | Module body \<Rightarrow>
          (let st0 = \<lparr>entities = [module_entity file_path module_path body],
                      relationships = []\<rparr>;
               st = fold (visit module_path) (walk (map (Pair True) body)) st0
           in Inr (entities st, relationships st)))"

section \<open>The graph store as the indexer's queries see it\<close>

text \<open>
  A node has one label and a property map; a relationship is a type between two nodes,
  given by their positions in the node list. Nodes and relationships are never removed.
\<close>

record node =
  label :: string
  props :: "string \<rightharpoonup> pyval"

record graph =
  nodes :: "node list"
  rels :: "(string \<times> nat \<times> nat) list"

text \<open>
  The two query shapes \<open>index_file\<close> builds, each with the parameters bound to it:
  \<^item> \<open>MergeEntity entity_type name entity_dict\<close> is
    \<^verbatim>\<open>MERGE (e:<entity_type> {name: $name}) SET e += {<k>: $<k>, ...}\<close>
    with one \<open>k\<close> per key of \<open>entity_dict\<close> and the parameters
    \<open>{"name": name, **entity_dict}\<close>;
  \<^item> \<open>MergeRel rel_type source target rel_dict\<close> is
    \<^verbatim>\<open>MATCH (s {name: $source}), (t {name: $target}) MERGE (s)-[r:<rel_type>]->(t)\<close>
    with the parameters \<open>{"source": source, "target": target, **rel_dict}\<close>.
\<close>

datatype query =
  MergeEntity string pyval pydict
  | MergeRel string pyval pyval pydict

text \<open>\<open>SET e += {...}\<close>: each listed key is written; a null value removes the key.\<close>

definition set_props :: "(string \<rightharpoonup> pyval) \<Rightarrow> pydict \<Rightarrow> (string \<rightharpoonup> pyval)" where
  "set_props p kvs = fold (\<lambda>(k, v) p. if v = PNone then p(k := None) else p(k \<mapsto> v)) kvs p"

text \<open>The pattern \<open>{name: $v}\<close>: the property is present and equal; null equals nothing.\<close>

definition has_name :: "pyval \<Rightarrow> node \<Rightarrow> bool" where
  "has_name v nd = (v \<noteq> PNone \<and> props nd ''name'' = Some v)"

definition merge_entity :: "string \<Rightarrow> pyval \<Rightarrow> pydict \<Rightarrow> graph \<Rightarrow> graph" where
  "merge_entity l v kvs g =
     (if list_ex (\<lambda>nd. label nd = l \<and> has_name v nd) (nodes g)
      then g\<lparr>nodes := map (\<lambda>nd. if label nd = l \<and> has_name v nd
                                 then nd\<lparr>props := set_props (props nd) kvs\<rparr> else nd)
                          (nodes g)\<rparr>
      else g\<lparr>nodes := nodes g @ [\<lparr>label = l, props = set_props [''name'' \<mapsto> v] kvs\<rparr>]\<rparr>)"

definition match_name :: "pyval \<Rightarrow> graph \<Rightarrow> nat list" where
  "match_name v g = filter (\<lambda>i. has_name v (nodes g ! i)) [0..<length (nodes g)]"

definition merge_rel :: "string \<Rightarrow> nat \<times> nat \<Rightarrow> graph \<Rightarrow> graph" where
  "merge_rel t sd g = (if (t, sd) \<in> set (rels g) then g else g\<lparr>rels := rels g @ [(t, sd)]\<rparr>)"

definition match_merge_rel :: "string \<Rightarrow> pyval \<Rightarrow> pyval \<Rightarrow> graph \<Rightarrow> graph" where
  "match_merge_rel t s d g =
     fold (merge_rel t) (List.product (match_name s g) (match_name d g)) g"

text \<open>One query of a transaction; \<open>None\<close> when the store refuses it (a merge on a null).\<close>

fun run_query :: "query \<Rightarrow> graph \<Rightarrow> graph option" where
  "run_query (MergeEntity l v kvs) g = (if v = PNone then None else Some (merge_entity l v kvs g))"
| "run_query (MergeRel t s d ps) g = Some (match_merge_rel t s d g)"

fun run_queries :: "query list \<Rightarrow> graph \<Rightarrow> graph option" where
  "run_queries [] g = Some g"
| "run_queries (q # qs) g =
     (case run_query q g of None \<Rightarrow> None | Some g' \<Rightarrow> run_queries qs g')"

text \<open>
  \<open>Neo4jClient.execute_batch_write\<close>: all queries in one transaction, committed at the
  end; a failure raises and leaves the graph as it was.
\<close>

definition execute_batch_write :: "query list \<Rightarrow> graph \<Rightarrow> exn + graph" where
  "execute_batch_write queries g =
     (case run_queries queries g of None \<Rightarrow> Inl Neo4jConnectionError | Some g' \<Rightarrow> Inr g')"

section \<open>IndexerTools (src/agents/indexer/tools.py)\<close>

text \<open>
  The query for one entity: \<open>entity_type\<close> and \<open>name\<close> are popped from \<open>to_dict()\<close>, the
  rest are the properties set on the node. \<open>None\<close> stands for a KeyError or a label
  that is not text; neither arises for an entity the parser builds.
\<close>

definition entity_query :: "EntityInfo \<Rightarrow> query option" where
  "entity_query e =
     (case dict_pop ''entity_type'' (to_dict e) of
        None \<Rightarrow> None
      | Some (et, d1) \<Rightarrow>
          (case dict_pop ''name'' d1 of
             None \<Rightarrow> None
           | Some (nm, entity_dict) \<Rightarrow>
               (case et of PStr l \<Rightarrow> Some (MergeEntity l nm entity_dict) | _ \<Rightarrow> None)))"

definition relationship_query :: "RelationshipInfo \<Rightarrow> query option" where
  "relationship_query r =
     (case dict_pop ''rel_type'' (rel_to_dict r) of
        None \<Rightarrow> None
      | Some (rt, d1) \<Rightarrow>
          (case dict_pop ''source'' d1 of
             None \<Rightarrow> None
           | Some (s, d2) \<Rightarrow>
               (case dict_pop ''target'' d2 of
                  None \<Rightarrow> None
                | Some (t, rel_dict) \<Rightarrow>
                    (case rt of PStr l \<Rightarrow> Some (MergeRel l s t rel_dict) | _ \<Rightarrow> None))))"

text \<open>The key an entity is merged under: the label and the value of \<open>$name\<close>.\<close>

definition merge_key :: "EntityInfo \<Rightarrow> (string \<times> pyval) option" where
  "merge_key e =
     (case entity_query e of Some (MergeEntity l v kvs) \<Rightarrow> Some (l, v) | _ \<Rightarrow> None)"

definition build_queries :: "EntityInfo list \<Rightarrow> RelationshipInfo list \<Rightarrow> query list option" where
  "build_queries es rs = those (map entity_query es @ map relationship_query rs)"

text \<open>
  \<open>index_file\<close>, given the module path and what parsing the file gives. Every exception
  is re-raised as IndexerError. The store is taken to be reachable: a failure to connect
  or to transport the batch is not a branch of the model, a query the store refuses is.
\<close>

definition index_file :: "string \<Rightarrow> string \<Rightarrow> py_source \<Rightarrow> graph \<Rightarrow> exn + graph" where
  "index_file file_path module_path src g =
     (case parse_file file_path module_path src of
        Inl e \<Rightarrow> Inl IndexerError
      | Inr (es, rs) \<Rightarrow>
          (case build_queries es rs of
             None \<Rightarrow> Inl IndexerError
           | Some queries \<Rightarrow>
               (case execute_batch_write queries g of
                  Inl e \<Rightarrow> Inl IndexerError
                | Inr g' \<Rightarrow> Inr g')))"

record IndexingJob =
  job_id :: string
  status :: IndexJobStatus
  started_at :: nat
  completed_at :: "nat option"
  files_processed :: nat
  total_files :: nat
  error :: "exn option"

type_synonym discovered_file = "string \<times> string \<times> py_source"

text \<open>The body of the loop over \<open>enumerate(python_files)\<close>, with its \<open>try\<close>.\<close>

definition index_step ::
  "nat \<times> discovered_file \<Rightarrow> IndexingJob \<times> graph \<Rightarrow> IndexingJob \<times> graph" where
  "index_step = (\<lambda>(i, (file_path, module_path, src)) (job, g).
     case index_file file_path module_path src g of
       Inr g' \<Rightarrow> (job\<lparr>files_processed := i + 1\<rparr>, g')
     | Inl e \<Rightarrow> (job, g))"

text \<open>
  \<open>index_repository\<close>. \<open>discovered\<close> is what cloning and discovery give: the files in
  order (path, module path, what \<open>parse_file\<close> starts from) or the exception raised.
  \<open>connect\<close> is what \<open>get_neo4j_client\<close> does after \<open>total_files\<close> is stored: \<open>None\<close>
  when it returns the client, the exception when it raises. \<open>t0\<close> and \<open>t1\<close> are the
  clock readings at the start and at the end. The result is the job, the dictionary
  returned (or IndexerError) and the graph.
\<close>

definition index_repository ::
  "string \<Rightarrow> nat \<Rightarrow> nat \<Rightarrow> exn + discovered_file list \<Rightarrow> exn option \<Rightarrow> graph
    \<Rightarrow> IndexingJob \<times> (exn + pydict) \<times> graph" where
  "index_repository jid t0 t1 discovered connect g =
     (let job = \<lparr>job_id = jid, status = IN_PROGRESS, started_at = t0, completed_at = None,
                 files_processed = 0, total_files = 0, error = None\<rparr>
      in case discovered of
           Inl e \<Rightarrow>
             (job\<lparr>status := FAILED, error := Some e, completed_at := Some t1\<rparr>,
              Inl IndexerError, g)
         | Inr python_files \<Rightarrow>
             (let job1 = job\<lparr>total_files := length python_files\<rparr>
              in case connect of
                   Some e \<Rightarrow>
                     (job1\<lparr>status := FAILED, error := Some e, completed_at := Some t1\<rparr>,
                      Inl IndexerError, g)
                 | None \<Rightarrow>
                     (let (job2, g') = fold index_step (enumerate 0 python_files) (job1, g);
                          job3 = job2\<lparr>status := COMPLETED, completed_at := Some t1\<rparr>
                      in (job3,
                          Inr [(''success'', PBool True),
                               (''job_id'', PStr jid),
                               (''files_processed'', PInt (int (files_processed job3))),
                               (''total_files'', PInt (int (total_files job3)))],
                          g'))))"

section \<open>Free-form query validation (src/agents/graph_query)\<close>

text \<open>
  A query is a Python \<open>str\<close>: a list of Unicode code points. \<open>text_of\<close> gives an ASCII
  literal as such a list.
\<close>

type_synonym pystr = "nat list"

definition text_of :: "string \<Rightarrow> pystr" where
  "text_of s = map of_char s"

text \<open>
  \<open>str.upper\<close> replaces each code point by its full upper-case mapping, which may be
  several code points (U+00DF gives \<open>SS\<close>), and concatenates. The mapping is Unicode's
  table, a parameter \<open>table\<close> here.
\<close>

definition upper :: "(nat \<Rightarrow> pystr) \<Rightarrow> pystr \<Rightarrow> pystr" where
  "upper table s = concat (map table s)"

text \<open>\<open>k in s\<close> for two texts.\<close>

fun str_contains :: "pystr \<Rightarrow> pystr \<Rightarrow> bool" where
  "str_contains k [] = (k = [])"
| "str_contains k (c # s) = (take (length k) (c # s) = k \<or> str_contains k s)"

definition dangerous_keywords :: "pystr list" where
  "dangerous_keywords =
     map text_of
       [''DELETE'', ''DETACH DELETE'', ''REMOVE'', ''SET'', ''CREATE CONSTRAINT'', ''DROP'']"

definition validate_query :: "(nat \<Rightarrow> pystr) \<Rightarrow> pystr \<Rightarrow> bool" where
  "validate_query table q =
     (\<not> list_ex (\<lambda>keyword. str_contains keyword (upper table q)) dangerous_keywords)"

record 'r query_result =
  success :: bool
  query_text :: pystr
  results :: "'r list"
  count :: nat

text \<open>
  \<open>GraphQueryTools.execute_query\<close>. \<open>backend\<close> is the database behind
  \<open>get_neo4j_client().execute_read\<close>: the rows of a query, or the exception raised. The
  second component lists the queries sent to the database, in order.
\<close>

definition execute_query ::
  "(nat \<Rightarrow> pystr) \<Rightarrow> (pystr \<Rightarrow> exn + 'r list) \<Rightarrow> pystr
    \<Rightarrow> (exn + 'r query_result) \<times> pystr list" where
  "execute_query table backend cypher_query =
     (if \<not> validate_query table cypher_query then (Inl GraphQueryError, [])
      else (case backend cypher_query of
              Inl e \<Rightarrow> (Inl GraphQueryError, [cypher_query])
            | Inr result \<Rightarrow>
                (Inr \<lparr>success = True, query_text = cypher_query, results = result,
                      count = length result\<rparr>,
                 [cypher_query])))"

section \<open>Notions used to state the properties\<close>

text \<open>The parser before anything is appended.\<close>

definition init_parser :: parser where
  "init_parser = \<lparr>entities = [], relationships = []\<rparr>"

text \<open>
  A step of the parser only appends: what it leaves in the two lists is what was there,
  followed by what it leaves when started on the empty lists.
\<close>

definition appends :: "(parser \<Rightarrow> parser) \<Rightarrow> bool" where
  "appends f =
     (\<forall>st. entities (f st) = entities st @ entities (f init_parser) \<and>
           relationships (f st) = relationships st @ relationships (f init_parser))"

text \<open>
  The source \<open>class Foo(Base):\<close> / \<open>def bar(self, x):\<close> / \<open>"""doc"""\<close> / \<open>return x\<close>
  as \<open>ast.parse\<close> gives it; the \<open>return\<close> statement is an \<open>OtherNode\<close>.
\<close>

definition example_body :: "stmt list" where
  "example_body =
     [ClassDef ''Foo'' [Name ''Base''] []
        [FuncDef False ''bar'' [Arg ''self'' None 2, Arg ''x'' None 2] []
           [ExprStr ''doc'', OtherNode []] 2] 1]"

text \<open>
  An upper-case table for the examples: it is Python's on the code points below 128, on
  U+017F (long s, to \<open>S\<close>) and on U+00DF (sharp s, to \<open>SS\<close>), the only code points
  the examples contain.
\<close>

definition upper_table_sample :: "nat \<Rightarrow> pystr" where
  "upper_table_sample c =
     (if 97 \<le> c \<and> c \<le> 122 then [c - 32]
      else if c = 383 then [83]
      else if c = 223 then [83, 83]
      else [c])"

text \<open>The two lists a successful \<open>parse_file\<close> returns; empty when it raises.\<close>

definition parse_entities :: "string \<Rightarrow> string \<Rightarrow> py_source \<Rightarrow> EntityInfo list" where
  "parse_entities file_path module_path src =
     (case parse_file file_path module_path src of Inl e \<Rightarrow> [] | Inr (es, rs) \<Rightarrow> es)"

definition parse_relationships :: "string \<Rightarrow> string \<Rightarrow> py_source \<Rightarrow> RelationshipInfo list" where
  "parse_relationships file_path module_path src =
     (case parse_file file_path module_path src of Inl e \<Rightarrow> [] | Inr (es, rs) \<Rightarrow> rs)"

text \<open>The bases of a class that get an INHERITS_FROM edge, in order.\<close>

definition inherited_names :: "expr list \<Rightarrow> string list" where
  "inherited_names bases =
     map (\<lambda>b. the (get_name_from_node b))
       (filter (\<lambda>b. truthy (get_name_from_node b) \<and> the (get_name_from_node b) \<noteq> ''ABC'')
          bases)"

text \<open>
  The module \<open>m\<close> with \<open>@D class X: pass\<close> and \<open>@m.X.decorator.D class Y: pass\<close>.
\<close>

definition decorator_clash_body :: "stmt list" where
  "decorator_clash_body =
     [ClassDef ''X'' [] [Name ''D''] [OtherNode []] 2,
      ClassDef ''Y'' []
        [Attribute ''m.X.decorator.D'']
        [OtherNode []] 5]"

text \<open>The decorator names that get a Decorator entity, for a function and for a class.\<close>

definition function_decorators :: "expr list \<Rightarrow> string list" where
  "function_decorators decs =
     map (\<lambda>d. the (get_name_from_node d))
       (filter (\<lambda>d. truthy (get_name_from_node d) \<and>
                     the (get_name_from_node d) \<notin> set [''staticmethod'', ''classmethod''])
          decs)"

definition class_decorators :: "expr list \<Rightarrow> string list" where
  "class_decorators decs =
     map (\<lambda>d. the (get_name_from_node d)) (filter (\<lambda>d. truthy (get_name_from_node d)) decs)"

text \<open>The names of the function definitions that are elements of a body, in order.\<close>

definition function_names :: "stmt list \<Rightarrow> string list" where
  "function_names body =
     concat (map (\<lambda>s. case s of FuncDef a n args decs b ln \<Rightarrow> [n] | _ \<Rightarrow> []) body)"

text \<open>
  What a node visited by the walk contributes to containment: for each Class, Function
  or Method entity its visit emits, in order, the entity type, the id of the parent and
  the id of the entity.
\<close>

fun containment :: "string \<Rightarrow> bool \<times> stmt \<Rightarrow> (EntityType \<times> string \<times> string) list" where
  "containment mp (t, ClassDef cn bases decs body ln) =
     (CLASS, mp, mp @ ''.'' @ cn) #
     map (\<lambda>n. (METHOD, mp @ ''.'' @ cn, mp @ ''.'' @ cn @ ''.'' @ n)) (function_names body)"
| "containment mp (t, FuncDef a n args decs body ln) =
     (if t then [(FUNCTION, mp, mp @ ''.'' @ n)] else [])"
| "containment mp (t, node) = []"

text \<open>
  The module \<open>m\<close> with \<open>class A:\<close> / \<open>def f(self): pass\<close> and \<open>class B:\<close> /
  \<open>def f(self): pass\<close>: two methods with the same local name in different classes.
\<close>

definition same_method_body :: "stmt list" where
  "same_method_body =
     [ClassDef ''A'' [] [] [FuncDef False ''f'' [Arg ''self'' None 2] [] [OtherNode []] 2] 1,
      ClassDef ''B'' [] [] [FuncDef False ''f'' [Arg ''self'' None 5] [] [OtherNode []] 5] 4]"

text \<open>
  Notions for the merge of entities: whether a node is the one a merge on \<open>(l, v)\<close>
  matches, what the merge does to one node, the node it creates before its properties
  are set, and the nodes a list of merges has to create on a graph whose nodes have
  the keys \<open>K\<close>.
\<close>

definition node_key :: "node \<Rightarrow> string \<times> pyval option" where
  "node_key nd = (label nd, props nd ''name'')"

definition matches :: "string \<Rightarrow> pyval \<Rightarrow> node \<Rightarrow> bool" where
  "matches l v nd = (label nd = l \<and> has_name v nd)"

definition set_node :: "string \<Rightarrow> pyval \<Rightarrow> pydict \<Rightarrow> node \<Rightarrow> node" where
  "set_node l v kvs nd = (if matches l v nd then nd\<lparr>props := set_props (props nd) kvs\<rparr> else nd)"

definition base_node :: "string \<Rightarrow> pyval \<Rightarrow> node" where
  "base_node l v = \<lparr>label = l, props = [''name'' \<mapsto> v]\<rparr>"

fun entity_part :: "query \<Rightarrow> bool" where
  "entity_part (MergeEntity l v kvs) = (v \<noteq> PNone \<and> ''name'' \<notin> fst ` set kvs)"
| "entity_part (MergeRel t s d ps) = False"

fun rel_part :: "query \<Rightarrow> bool" where
  "rel_part (MergeEntity l v kvs) = False"
| "rel_part (MergeRel t s d ps) = True"

fun set_nodes :: "query \<Rightarrow> node \<Rightarrow> node" where
  "set_nodes (MergeEntity l v kvs) nd = set_node l v kvs nd"
| "set_nodes (MergeRel t s d ps) nd = nd"

fun query_key :: "query \<Rightarrow> string \<times> pyval option" where
  "query_key (MergeEntity l v kvs) = (l, Some v)"
| "query_key (MergeRel t s d ps) = ([], Some PNone)"

fun query_base :: "query \<Rightarrow> node" where
  "query_base (MergeEntity l v kvs) = base_node l v"
| "query_base (MergeRel t s d ps) = base_node [] PNone"

text \<open>The properties a query writes on a node.\<close>

fun written :: "node \<Rightarrow> query \<Rightarrow> pydict" where
  "written nd (MergeEntity l v kvs) = (if matches l v nd then kvs else [])"
| "written nd (MergeRel t s d ps) = []"

fun created :: "query list \<Rightarrow> (string \<times> pyval option) set \<Rightarrow> node list" where
  "created [] K = []"
| "created (q # qs) K =
     (if query_key q \<in> K then created qs K
      else query_base q # created qs (insert (query_key q) K))"

text \<open>
  What holds of every entity the parser builds: no property is called \<open>entity_type\<close>,
  no property \<open>name\<close> is null, and a Module, Import or Docstring entity has no property
  \<open>name\<close> at all.
\<close>

definition parser_entity :: "EntityInfo \<Rightarrow> bool" where
  "parser_entity e =
     (''entity_type'' \<notin> fst ` set (properties e) \<and>
      (''name'', PNone) \<notin> set (properties e) \<and>
      (entity_type e \<in> {MODULE, IMPORT, DOCSTRING} \<longrightarrow> ''name'' \<notin> fst ` set (properties e)))"

definition empty_graph :: graph where
  "empty_graph = \<lparr>nodes = [], rels = []\<rparr>"

text \<open>The module \<open>m\<close> whose only statement is \<open>import os\<close>, and the graph it leaves.\<close>

definition import_os_body :: "stmt list" where
  "import_os_body = [Import [''os''] 1]"

definition import_os_graph :: graph where
  "import_os_graph =
     \<lparr>nodes =
        [\<lparr>label = ''Module'',
          props = [''name'' \<mapsto> PStr ''m'', ''line_number'' \<mapsto> PInt 1,
                   ''path'' \<mapsto> PStr ''m'', ''file_path'' \<mapsto> PStr ''m.py'',
                   ''docstring'' \<mapsto> PStr []]\<rparr>,
         \<lparr>label = ''Import'',
          props = [''name'' \<mapsto> PStr ''m.import.os'', ''line_number'' \<mapsto> PInt 1,
                   ''module_name'' \<mapsto> PStr ''os'', ''imported_names'' \<mapsto> PList [''os''],
                   ''is_from_import'' \<mapsto> PBool False]\<rparr>],
      rels = []\<rparr>"

text \<open>
  The module \<open>m\<close> with \<open>class A:\<close> / \<open>class Inner: pass\<close> and \<open>class B:\<close> /
  \<open>class Inner: pass\<close>: two classes named \<open>Inner\<close> in different lexical scopes.
\<close>

definition nested_classes_body :: "stmt list" where
  "nested_classes_body =
     [ClassDef ''A'' [] [] [ClassDef ''Inner'' [] [] [OtherNode []] 2] 1,
      ClassDef ''B'' [] [] [ClassDef ''Inner'' [] [] [OtherNode []] 4] 3]"

text \<open>Five discovered files, all empty modules but the third, which does not parse.\<close>

definition five_files :: "discovered_file list" where
  "five_files =
     [(''a.py'', ''a'', Module []),
      (''b.py'', ''b'', Module []),
      (''c.py'', ''c'', SyntaxError),
      (''d.py'', ''d'', Module []),
      (''e.py'', ''e'', Module [])]"

definition module_node :: "string \<Rightarrow> string \<Rightarrow> node" where
  "module_node module_path file_path =
     \<lparr>label = ''Module'',
      props = [''name'' \<mapsto> PStr module_path, ''line_number'' \<mapsto> PInt 1,
               ''path'' \<mapsto> PStr module_path, ''file_path'' \<mapsto> PStr file_path,
               ''docstring'' \<mapsto> PStr []]\<rparr>"

section \<open>The parser only appends\<close>

lemma entities_append_entity [simp]: "entities (append_entity e st) = entities st @ [e]"
  by (simp add: append_entity_def)

lemma relationships_append_entity [simp]: "relationships (append_entity e st) = relationships st"
  by (simp add: append_entity_def)

lemma entities_append_relationship [simp]: "entities (append_relationship r st) = entities st"
  by (simp add: append_relationship_def)

lemma relationships_append_relationship [simp]:
  "relationships (append_relationship r st) = relationships st @ [r]"
  by (simp add: append_relationship_def)

lemma entities_init [simp]: "entities init_parser = []"
  and relationships_init [simp]: "relationships init_parser = []"
  by (simp_all add: init_parser_def)

lemma appends_entities:
  "appends f \<Longrightarrow> entities (f st) = entities st @ entities (f init_parser)"
  unfolding appends_def by (drule spec [of _ st]) (erule conjunct1)

lemma appends_relationships:
  "appends f \<Longrightarrow> relationships (f st) = relationships st @ relationships (f init_parser)"
  unfolding appends_def by (drule spec [of _ st]) (erule conjunct2)

lemma appends_id [simp]: "appends (\<lambda>st. st)"
  by (simp add: appends_def)

lemma appends_if [simp]:
  "appends f \<Longrightarrow> appends g \<Longrightarrow> appends (\<lambda>st. if c then f st else g st)"
  by (cases c) simp_all

lemma appends_case_prod [simp]: "(\<And>a b. appends (f a b)) \<Longrightarrow> appends (case_prod f x)"
  by (cases x) simp

lemma appends_comp:
  assumes "appends f" and "appends g"
  shows "appends (\<lambda>st. g (f st))"
  unfolding appends_def
proof (intro allI conjI)
  fix st
  show "entities (g (f st)) = entities st @ entities (g (f init_parser))"
    by (simp add: appends_entities [OF assms(2), of "f st"]
        appends_entities [OF assms(2), of "f init_parser"] appends_entities [OF assms(1), of st])
  show "relationships (g (f st)) = relationships st @ relationships (g (f init_parser))"
    by (simp add: appends_relationships [OF assms(2), of "f st"]
        appends_relationships [OF assms(2), of "f init_parser"]
        appends_relationships [OF assms(1), of st])
qed

lemma appends_fold [simp]:
  assumes "\<And>x. appends (f x)"
  shows "appends (fold f xs)"
proof (induction xs)
  case Nil
  show ?case by simp
next
  case (Cons x xs)
  have "appends (\<lambda>st. fold f xs (f x st))"
    by (rule appends_comp) (simp_all add: Cons assms)
  then show ?case by simp
qed

lemma fold_entities:
  assumes "\<And>x. appends (f x)"
  shows "entities (fold f xs st) = entities st @ concat (map (\<lambda>x. entities (f x init_parser)) xs)"
proof (induction xs arbitrary: st)
  case Nil
  show ?case by simp
next
  case (Cons x xs)
  then show ?case by (simp add: appends_entities [OF assms, of x st])
qed

lemma fold_relationships:
  assumes "\<And>x. appends (f x)"
  shows "relationships (fold f xs st) =
    relationships st @ concat (map (\<lambda>x. relationships (f x init_parser)) xs)"
proof (induction xs arbitrary: st)
  case Nil
  show ?case by simp
next
  case (Cons x xs)
  then show ?case by (simp add: appends_relationships [OF assms, of x st])
qed

lemma appends_append_entity [simp]: "appends (append_entity e)"
  by (simp add: appends_def)

lemma appends_append_relationship [simp]: "appends (append_relationship r)"
  by (simp add: appends_def)


lemma entities_add_parameter [simp]:
  "entities (add_parameter parent a i st) =
     entities st @
       [EntInfo PARAMETER (parent @ ''.param.'' @ arg_name a) (arg_lineno a)
          [(''name'', PStr (arg_name a)),
           (''type_annotation'',
            case annotation a of None \<Rightarrow> PNone | Some t \<Rightarrow> PStr t),
           (''position'', PInt (int i))]]"
  by (simp add: add_parameter_def Let_def)

lemma relationships_add_parameter [simp]:
  "relationships (add_parameter parent a i st) =
     relationships st @ [RelInfo HAS_PARAMETER parent (parent @ ''.param.'' @ arg_name a)]"
  by (simp add: add_parameter_def Let_def)

lemma entities_add_decorator [simp]:
  "entities (add_decorator parent d st) =
     entities st @ [EntInfo DECORATOR (parent @ ''.decorator.'' @ d) 0 [(''name'', PStr d)]]"
  by (simp add: add_decorator_def Let_def)

lemma relationships_add_decorator [simp]:
  "relationships (add_decorator parent d st) =
     relationships st @ [RelInfo DECORATED_BY parent d]"
  by (simp add: add_decorator_def Let_def)

lemma entities_add_docstring [simp]:
  "entities (add_docstring parent c ln st) =
     entities st @ [EntInfo DOCSTRING (parent @ ''.docstring'') ln [(''content'', PStr c)]]"
  by (simp add: add_docstring_def Let_def)

lemma relationships_add_docstring [simp]:
  "relationships (add_docstring parent c ln st) =
     relationships st @ [RelInfo DOCUMENTED_BY parent (parent @ ''.docstring'')]"
  by (simp add: add_docstring_def Let_def)

lemma appends_add_parameter [simp]: "appends (add_parameter parent a i)"
  by (simp add: appends_def)

lemma appends_add_decorator [simp]: "appends (add_decorator parent d)"
  by (simp add: appends_def)

lemma appends_add_docstring [simp]: "appends (add_docstring parent c ln)"
  by (simp add: appends_def)


lemma appends_parse_function [simp]:
  "appends (parse_function mp a n args decs body ln is_method parent)"
  unfolding appends_def
  by (simp add: parse_function_def Let_def fold_entities fold_relationships)

lemma appends_parse_method [simp]: "appends (parse_method mp cn item)"
proof (cases item)
  case (FuncDef a n args decs body ln)
  have "parse_method mp cn (FuncDef a n args decs body ln) =
      parse_function mp a n args decs body ln True cn"
    by (rule ext) simp
  then show ?thesis by (simp add: FuncDef)
qed (simp_all add: appends_def)

lemma appends_parse_class [simp]: "appends (parse_class mp n bases decs body ln)"
  unfolding appends_def
  by (simp add: parse_class_def Let_def fold_entities fold_relationships)

lemma appends_parse_import_plain [simp]: "appends (parse_import_plain mp names ln)"
  unfolding appends_def
  by (simp add: parse_import_plain_def fold_entities fold_relationships appends_comp)

lemma appends_parse_import_from [simp]: "appends (parse_import_from mp m names ln)"
  unfolding appends_def
  by (simp add: parse_import_from_def Let_def)

lemma appends_visit [simp]: "appends (visit mp x)"
proof (cases x)
  case (Pair t n)
  show ?thesis
  proof (cases n)
    case (ClassDef cn bases decs body ln)
    have "visit mp (t, ClassDef cn bases decs body ln) = parse_class mp cn bases decs body ln"
      by (rule ext) simp
    then show ?thesis by (simp add: Pair ClassDef)
  next
    case (FuncDef a fn args decs body ln)
    have "visit mp (t, FuncDef a fn args decs body ln) =
        (\<lambda>st. if t then parse_function mp a fn args decs body ln False [] st else st)"
      by (rule ext) simp
    then show ?thesis by (simp add: Pair FuncDef)
  next
    case (Import names ln)
    have "visit mp (t, Import names ln) = parse_import_plain mp names ln"
      by (rule ext) simp
    then show ?thesis by (simp add: Pair Import)
  next
    case (ImportFrom m names ln)
    have "visit mp (t, ImportFrom m names ln) = parse_import_from mp m names ln"
      by (rule ext) simp
    then show ?thesis by (simp add: Pair ImportFrom)
  next
    case (ExprStr s)
    then show ?thesis by (simp add: Pair appends_def)
  next
    case (OtherNode cs)
    then show ?thesis by (simp add: Pair appends_def)
  qed
qed

section \<open>Extraction: the end-to-end example\<close>

lemmas parser_defs =
  parse_file_def parse_class_def parse_function_def parse_import_from_def
  parse_import_plain_def add_parameter_def add_decorator_def add_docstring_def
  append_entity_def append_relationship_def module_entity_def or_empty_def truthy_def
  Let_def enumerate_eq_zip

text \<open>
  C5. Parsing the example source under module path \<open>pkg.mod\<close> gives exactly the module,
  the class \<open>pkg.mod.Foo\<close> (not abstract), the method \<open>pkg.mod.Foo.bar\<close> (not async), the
  parameters \<open>self\<close> at position 0 and \<open>x\<close> at position 1 and the docstring entity with
  content \<open>doc\<close>, and exactly the six relationships listed.
\<close>

theorem end_to_end_example:
  "parse_file file_path ''pkg.mod'' (Module example_body) =
     Inr ([EntInfo MODULE ''pkg.mod'' 1
             [(''path'', PStr ''pkg.mod''), (''file_path'', PStr file_path),
              (''docstring'', PStr [])],
           EntInfo CLASS ''pkg.mod.Foo'' 1
             [(''name'', PStr ''Foo''), (''module_path'', PStr ''pkg.mod''),
              (''docstring'', PStr []), (''is_abstract'', PBool False)],
           EntInfo METHOD ''pkg.mod.Foo.bar'' 2
             [(''name'', PStr ''bar''), (''module_path'', PStr ''pkg.mod''),
              (''docstring'', PStr ''doc''), (''is_async'', PBool False),
              (''signature'', PStr ''bar(self, x)''), (''is_static'', PBool False),
              (''is_classmethod'', PBool False)],
           EntInfo PARAMETER ''pkg.mod.Foo.bar.param.self'' 2
             [(''name'', PStr ''self''), (''type_annotation'', PNone), (''position'', PInt 0)],
           EntInfo PARAMETER ''pkg.mod.Foo.bar.param.x'' 2
             [(''name'', PStr ''x''), (''type_annotation'', PNone), (''position'', PInt 1)],
           EntInfo DOCSTRING ''pkg.mod.Foo.bar.docstring'' 2 [(''content'', PStr ''doc'')]],
          [RelInfo CONTAINS ''pkg.mod'' ''pkg.mod.Foo'',
           RelInfo INHERITS_FROM ''pkg.mod.Foo'' ''Base'',
           RelInfo CONTAINS ''pkg.mod.Foo'' ''pkg.mod.Foo.bar'',
           RelInfo HAS_PARAMETER ''pkg.mod.Foo.bar'' ''pkg.mod.Foo.bar.param.self'',
           RelInfo HAS_PARAMETER ''pkg.mod.Foo.bar'' ''pkg.mod.Foo.bar.param.x'',
           RelInfo DOCUMENTED_BY ''pkg.mod.Foo.bar'' ''pkg.mod.Foo.bar.docstring''])"
  by (simp add: example_body_def parser_defs)

section \<open>Imports\<close>

text \<open>
  C10. A from-import whose module is absent still gives one Import entity, with an empty
  \<open>module_name\<close> and \<open>is_from_import\<close> true, and no relationship; a from-import gives
  the IMPORTS edge exactly when the module name is not empty.
\<close>

theorem from_import_without_module:
  "visit mp (t, ImportFrom node_module names ln) st =
     parse_import_from mp node_module names ln st \<and>
   entities (parse_import_from mp None names ln st) =
     entities st @
       [EntInfo IMPORT (mp @ ''.import.'') ln
          [(''module_name'', PStr []), (''imported_names'', PList names),
           (''is_from_import'', PBool True)]] \<and>
   relationships (parse_import_from mp None names ln st) = relationships st \<and>
   relationships (parse_import_from mp (Some m) names ln st) =
     relationships st @ (if m = [] then [] else [RelInfo IMPORTS mp m])"
  by (simp add: parse_import_from_def or_empty_def Let_def)

section \<open>Decorators and docstrings\<close>

text \<open>
  C9, as amended. For every decorator processed, the DECORATED_BY relationship emitted
  has the owner as source and the bare decorator name as target; neither is the id
  \<open><owner>.decorator.<name>\<close> of the Decorator entity emitted with it. A DOCUMENTED_BY
  relationship targets the id of the Docstring entity emitted with it.
\<close>

theorem decorated_by_targets_bare_name:
  "entities (add_decorator parent d st) =
     entities st @ [EntInfo DECORATOR (parent @ ''.decorator.'' @ d) 0 [(''name'', PStr d)]] \<and>
   relationships (add_decorator parent d st) =
     relationships st @ [RelInfo DECORATED_BY parent d] \<and>
   d \<noteq> parent @ ''.decorator.'' @ d \<and>
   parent \<noteq> parent @ ''.decorator.'' @ d \<and>
   entities (add_docstring parent c ln st) =
     entities st @ [EntInfo DOCSTRING (parent @ ''.docstring'') ln [(''content'', PStr c)]] \<and>
   relationships (add_docstring parent c ln st) =
     relationships st @ [RelInfo DOCUMENTED_BY parent (parent @ ''.docstring'')]"
proof -
  have "length d \<noteq> length (parent @ ''.decorator.'' @ d)"
    by simp
  then have "d \<noteq> parent @ ''.decorator.'' @ d"
    by (metis (no_types))
  then show ?thesis by simp
qed

text \<open>
  The claim as stated fails: in the module \<open>m\<close> of \<open>decorator_clash_body\<close> the
  Decorator entity of class \<open>X\<close> has the id \<open>m.X.decorator.D\<close>, and the DECORATED_BY
  relationship of class \<open>Y\<close> has that very text as its target.
\<close>

theorem decorator_id_is_an_endpoint:
  "EntInfo DECORATOR ''m.X.decorator.D'' 0 [(''name'', PStr ''D'')]
     \<in> set (parse_entities ''m.py'' ''m'' (Module decorator_clash_body)) \<and>
   RelInfo DECORATED_BY ''m.Y'' ''m.X.decorator.D''
     \<in> set (parse_relationships ''m.py'' ''m'' (Module decorator_clash_body)) \<and>
   target (RelInfo DECORATED_BY ''m.Y'' ''m.X.decorator.D'') =
     name (EntInfo DECORATOR ''m.X.decorator.D'' 0 [(''name'', PStr ''D'')])"
  by (simp add: parse_entities_def parse_relationships_def decorator_clash_body_def
      parser_defs EntInfo_def RelInfo_def)

section \<open>Free-form query validation\<close>

lemma str_contains_iff: "str_contains k s \<longleftrightarrow> (\<exists>a b. s = a @ k @ b)"
proof (induction s)
  case Nil
  show ?case by auto
next
  case (Cons c s)
  have pre: "take (length k) (c # s) = k \<longleftrightarrow> (\<exists>b. c # s = k @ b)"
    by (metis append_eq_conv_conj)
  show ?case
  proof
    assume "str_contains k (c # s)"
    then consider "take (length k) (c # s) = k" | "str_contains k s" by auto
    then show "\<exists>a b. c # s = a @ k @ b"
    proof cases
      case 1
      then obtain b where "c # s = k @ b" using pre by blast
      then have "c # s = [] @ k @ b" by simp
      then show ?thesis by blast
    next
      case 2
      then obtain a b where "s = a @ k @ b" using Cons.IH by blast
      then have "c # s = (c # a) @ k @ b" by simp
      then show ?thesis by blast
    qed
  next
    assume "\<exists>a b. c # s = a @ k @ b"
    then obtain a b where ab: "c # s = a @ k @ b" by blast
    show "str_contains k (c # s)"
    proof (cases a)
      case Nil
      then have "take (length k) (c # s) = k" using ab pre by auto
      then show ?thesis by simp
    next
      case (Cons x a')
      then have "s = a' @ k @ b" using ab by simp
      then have "str_contains k s" using Cons.IH by blast
      then show ?thesis by simp
    qed
  qed
qed

lemma upper_append: "upper table (a @ b) = upper table a @ upper table b"
  by (simp add: upper_def)

lemma validate_query_iff:
  "validate_query table q \<longleftrightarrow>
     (\<forall>k \<in> set dangerous_keywords. \<not> str_contains k (upper table q))"
  by (simp add: validate_query_def list_ex_iff)

text \<open>
  C6. Whatever the upper-case table, a query that contains a text whose upper-case
  form is a dangerous keyword (the keyword in any letter case) is not valid, and
  \<open>execute_query\<close> raises for it without sending anything to the database; a query
  whose upper-case form contains none of the keywords is valid and is sent to the
  database, and its rows are returned.
\<close>

theorem freeform_query_safety:
  "(upper table w \<in> set dangerous_keywords \<longrightarrow>
      \<not> validate_query table (a @ w @ b) \<and>
      execute_query table backend (a @ w @ b) = (Inl GraphQueryError, [])) \<and>
   ((\<forall>k \<in> set dangerous_keywords. \<not> str_contains k (upper table q)) \<longrightarrow>
      validate_query table q \<and>
      snd (execute_query table backend q) = [q] \<and>
      (\<forall>rows. backend q = Inr rows \<longrightarrow>
         fst (execute_query table backend q) =
           Inr \<lparr>success = True, query_text = q, results = rows, count = length rows\<rparr>))"
proof (intro conjI impI)
  assume w: "upper table w \<in> set dangerous_keywords"
  have "upper table (a @ w @ b) = upper table a @ upper table w @ upper table b"
    by (simp add: upper_append)
  then have "str_contains (upper table w) (upper table (a @ w @ b))"
    unfolding str_contains_iff by blast
  with w show nv: "\<not> validate_query table (a @ w @ b)"
    unfolding validate_query_iff by blast
  then show "execute_query table backend (a @ w @ b) = (Inl GraphQueryError, [])"
    by (simp add: execute_query_def)
next
  assume "\<forall>k \<in> set dangerous_keywords. \<not> str_contains k (upper table q)"
  then show v: "validate_query table q"
    by (simp add: validate_query_iff)
  show "snd (execute_query table backend q) = [q]"
    using v by (simp add: execute_query_def split: sum.split)
  show "\<forall>rows. backend q = Inr rows \<longrightarrow>
         fst (execute_query table backend q) =
           Inr \<lparr>success = True, query_text = q, results = rows, count = length rows\<rparr>"
    using v by (simp add: execute_query_def)
qed

theorem freeform_query_safety_witness:
  "upper upper_table_sample (text_of ''dElEtE'') \<in> set dangerous_keywords \<and>
   \<not> validate_query upper_table_sample (text_of ''MATCH (n) dElEtE n'') \<and>
   execute_query upper_table_sample (\<lambda>q. Inr [0::nat]) (text_of ''MATCH (n) dElEtE n'') =
     (Inl GraphQueryError, []) \<and>
   upper upper_table_sample (383 # text_of ''et'') \<in> set dangerous_keywords \<and>
   \<not> validate_query upper_table_sample (text_of ''MATCH (n) RETURN n.a'' @ 383 # text_of ''et'') \<and>
   validate_query upper_table_sample (text_of ''MATCH (n) RETURN n'') \<and>
   execute_query upper_table_sample (\<lambda>q. Inr [0::nat]) (text_of ''MATCH (n) RETURN n'') =
     (Inr \<lparr>success = True, query_text = text_of ''MATCH (n) RETURN n'', results = [0],
           count = 1\<rparr>,
      [text_of ''MATCH (n) RETURN n''])"
proof -
  have k: "upper upper_table_sample (text_of ''dElEtE'') \<in> set dangerous_keywords"
    by (simp add: upper_def upper_table_sample_def text_of_def dangerous_keywords_def)
  have l: "upper upper_table_sample (383 # text_of ''et'') \<in> set dangerous_keywords"
    by (simp add: upper_def upper_table_sample_def text_of_def dangerous_keywords_def)
  have r: "\<forall>k \<in> set dangerous_keywords.
      \<not> str_contains k (upper upper_table_sample (text_of ''MATCH (n) RETURN n''))"
    by (simp add: upper_def upper_table_sample_def text_of_def dangerous_keywords_def)
  have split: "text_of ''MATCH (n) dElEtE n'' =
      text_of ''MATCH (n) '' @ text_of ''dElEtE'' @ text_of '' n''"
    by (simp add: text_of_def)
  show ?thesis
    using k l r
      freeform_query_safety [of upper_table_sample "text_of ''dElEtE''"
        "text_of ''MATCH (n) ''" "text_of '' n''" "\<lambda>q. Inr [0::nat]"
        "text_of ''MATCH (n) RETURN n''"]
      freeform_query_safety [of upper_table_sample "383 # text_of ''et''"
        "text_of ''MATCH (n) RETURN n.a''" "[]" "\<lambda>q. Inr [0::nat]"
        "text_of ''MATCH (n) RETURN n''"]
    by (simp add: prod_eq_iff split)
qed

section \<open>What each parser step appends\<close>

lemma concat_map_if:
  "concat (map (\<lambda>x. if P x then [f x] else []) xs) = map f (filter P xs)"
  by (induction xs) simp_all

lemma relationships_parse_function:
  "relationships (parse_function mp a n args decs body ln im parent st) =
     relationships st @
       RelInfo CONTAINS (if im then parent else mp) ((if im then parent else mp) @ ''.'' @ n) #
       map (\<lambda>x. RelInfo HAS_PARAMETER ((if im then parent else mp) @ ''.'' @ n)
                  ((if im then parent else mp) @ ''.'' @ n @ ''.param.'' @ arg_name (snd x)))
         (enumerate 0 args) @
       map (RelInfo DECORATED_BY ((if im then parent else mp) @ ''.'' @ n))
         (function_decorators decs) @
       (if or_empty (get_docstring body) \<noteq> []
        then [RelInfo DOCUMENTED_BY ((if im then parent else mp) @ ''.'' @ n)
                ((if im then parent else mp) @ ''.'' @ n @ ''.docstring'')]
        else [])"
  by (simp add: parse_function_def Let_def fold_relationships function_decorators_def
      if_distrib [where f = relationships] concat_map_if
      split_def cong: if_cong)


lemma entities_parse_function:
  "entities (parse_function mp a n args decs body ln im parent st) =
     entities st @
       EntInfo (if im then METHOD else FUNCTION) ((if im then parent else mp) @ ''.'' @ n) ln
         ([(''name'', PStr n),
           (''module_path'', PStr mp),
           (''docstring'', PStr (or_empty (get_docstring body))),
           (''is_async'', PBool a),
           (''signature'', PStr (n @ ''('' @ join '', '' (map arg_name args) @ '')''))]
          @ (if im
             then [(''is_static'',
                    PBool (list_ex (\<lambda>d. get_name_from_node d = Some ''staticmethod'') decs)),
                   (''is_classmethod'',
                    PBool (list_ex (\<lambda>d. get_name_from_node d \<noteq> Some ''staticmethod'' \<and>
                                         get_name_from_node d = Some ''classmethod'') decs))]
             else [])) #
       map (\<lambda>x. EntInfo PARAMETER
                  ((if im then parent else mp) @ ''.'' @ n @ ''.param.'' @ arg_name (snd x))
                  (arg_lineno (snd x))
                  [(''name'', PStr (arg_name (snd x))),
                   (''type_annotation'',
                    case annotation (snd x) of None \<Rightarrow> PNone | Some t \<Rightarrow> PStr t),
                   (''position'', PInt (int (fst x)))])
         (enumerate 0 args) @
       map (\<lambda>d. EntInfo DECORATOR ((if im then parent else mp) @ ''.'' @ n @ ''.decorator.'' @ d)
                  0 [(''name'', PStr d)])
         (function_decorators decs) @
       (if or_empty (get_docstring body) \<noteq> []
        then [EntInfo DOCSTRING ((if im then parent else mp) @ ''.'' @ n @ ''.docstring'') ln
                [(''content'', PStr (or_empty (get_docstring body)))]]
        else [])"
  by (simp add: parse_function_def Let_def fold_entities function_decorators_def
      if_distrib [where f = entities] concat_map_if split_def comp_def cong: if_cong)

lemma relationships_parse_class:
  "relationships (parse_class mp cn bases decs body ln st) =
     relationships st @
       RelInfo CONTAINS mp (mp @ ''.'' @ cn) #
       map (RelInfo INHERITS_FROM (mp @ ''.'' @ cn)) (inherited_names bases) @
       map (RelInfo DECORATED_BY (mp @ ''.'' @ cn)) (class_decorators decs) @
       concat (map (\<lambda>item. relationships (parse_method mp (mp @ ''.'' @ cn) item init_parser))
                 body) @
       (if or_empty (get_docstring body) \<noteq> []
        then [RelInfo DOCUMENTED_BY (mp @ ''.'' @ cn) (mp @ ''.'' @ cn @ ''.docstring'')]
        else [])"
  by (simp add: parse_class_def Let_def fold_relationships inherited_names_def
      class_decorators_def if_distrib [where f = relationships] concat_map_if comp_def
      cong: if_cong)

lemma entities_parse_class:
  "entities (parse_class mp cn bases decs body ln st) =
     entities st @
       EntInfo CLASS (mp @ ''.'' @ cn) ln
         [(''name'', PStr cn),
          (''module_path'', PStr mp),
          (''docstring'', PStr (or_empty (get_docstring body))),
          (''is_abstract'', PBool (list_ex (\<lambda>d. d = Name ''ABC'') bases))] #
       map (\<lambda>d. EntInfo DECORATOR (mp @ ''.'' @ cn @ ''.decorator.'' @ d) 0 [(''name'', PStr d)])
         (class_decorators decs) @
       concat (map (\<lambda>item. entities (parse_method mp (mp @ ''.'' @ cn) item init_parser)) body) @
       (if or_empty (get_docstring body) \<noteq> []
        then [EntInfo DOCSTRING (mp @ ''.'' @ cn @ ''.docstring'') ln
                [(''content'', PStr (or_empty (get_docstring body)))]]
        else [])"
  by (simp add: parse_class_def Let_def fold_entities class_decorators_def
      if_distrib [where f = entities] concat_map_if comp_def cong: if_cong)


section \<open>Inheritance\<close>

lemma inherits_parse_method:
  "filter (\<lambda>r. rel_type r = INHERITS_FROM)
     (relationships (parse_method mp cls item init_parser)) = []"
  by (cases item) (simp_all add: relationships_parse_function RelInfo_def filter_map comp_def)

lemma inherits_parse_class:
  "filter (\<lambda>r. rel_type r = INHERITS_FROM)
     (relationships (parse_class mp cn bases decs body ln st)) =
   filter (\<lambda>r. rel_type r = INHERITS_FROM) (relationships st) @
     map (RelInfo INHERITS_FROM (mp @ ''.'' @ cn)) (inherited_names bases)"
proof -
  have "filter (\<lambda>r. rel_type r = INHERITS_FROM)
      (concat (map (\<lambda>item. relationships (parse_method mp (mp @ ''.'' @ cn) item init_parser))
         body)) = []"
    by (induction body) (simp_all add: inherits_parse_method)
  then show ?thesis
    by (simp add: relationships_parse_class RelInfo_def filter_map comp_def)
qed

text \<open>
  C7. A class with the two named bases \<open>b1\<close>, \<open>b2\<close> gets exactly two INHERITS_FROM
  relationships, one per base; a class whose only base is the name \<open>ABC\<close> gets none;
  the class entity has \<open>is_abstract\<close> true exactly when the name \<open>ABC\<close> is among the
  bases. In general the INHERITS_FROM relationships of a class are one per base whose
  name is found and is not \<open>ABC\<close>.
\<close>

theorem inheritance_and_abstract_sentinel:
  "(b1 \<noteq> [] \<and> b1 \<noteq> ''ABC'' \<and> b2 \<noteq> [] \<and> b2 \<noteq> ''ABC'' \<longrightarrow>
      filter (\<lambda>r. rel_type r = INHERITS_FROM)
        (relationships (parse_class mp cn [Name b1, Name b2] decs body ln st)) =
      filter (\<lambda>r. rel_type r = INHERITS_FROM) (relationships st) @
        [RelInfo INHERITS_FROM (mp @ ''.'' @ cn) b1, RelInfo INHERITS_FROM (mp @ ''.'' @ cn) b2]) \<and>
   filter (\<lambda>r. rel_type r = INHERITS_FROM)
     (relationships (parse_class mp cn [Name ''ABC''] decs body ln st)) =
   filter (\<lambda>r. rel_type r = INHERITS_FROM) (relationships st) \<and>
   entities (parse_class mp cn bases decs body ln st) ! length (entities st) =
     EntInfo CLASS (mp @ ''.'' @ cn) ln
       [(''name'', PStr cn),
        (''module_path'', PStr mp),
        (''docstring'', PStr (or_empty (get_docstring body))),
        (''is_abstract'', PBool (Name ''ABC'' \<in> set bases))] \<and>
   filter (\<lambda>r. rel_type r = INHERITS_FROM)
     (relationships (parse_class mp cn bases decs body ln st)) =
   filter (\<lambda>r. rel_type r = INHERITS_FROM) (relationships st) @
     map (RelInfo INHERITS_FROM (mp @ ''.'' @ cn)) (inherited_names bases)"
proof (intro conjI impI)
  assume "b1 \<noteq> [] \<and> b1 \<noteq> ''ABC'' \<and> b2 \<noteq> [] \<and> b2 \<noteq> ''ABC''"
  then have "inherited_names [Name b1, Name b2] = [b1, b2]"
    by (simp add: inherited_names_def truthy_def)
  then show "filter (\<lambda>r. rel_type r = INHERITS_FROM)
        (relationships (parse_class mp cn [Name b1, Name b2] decs body ln st)) =
      filter (\<lambda>r. rel_type r = INHERITS_FROM) (relationships st) @
        [RelInfo INHERITS_FROM (mp @ ''.'' @ cn) b1, RelInfo INHERITS_FROM (mp @ ''.'' @ cn) b2]"
    by (simp add: inherits_parse_class)
next
  have "inherited_names [Name ''ABC''] = []"
    by (simp add: inherited_names_def truthy_def)
  then show "filter (\<lambda>r. rel_type r = INHERITS_FROM)
     (relationships (parse_class mp cn [Name ''ABC''] decs body ln st)) =
   filter (\<lambda>r. rel_type r = INHERITS_FROM) (relationships st)"
    by (simp add: inherits_parse_class)
next
  have "list_ex (\<lambda>d. d = Name ''ABC'') bases \<longleftrightarrow> Name ''ABC'' \<in> set bases"
    by (auto simp: list_ex_iff)
  then show "entities (parse_class mp cn bases decs body ln st) ! length (entities st) =
     EntInfo CLASS (mp @ ''.'' @ cn) ln
       [(''name'', PStr cn),
        (''module_path'', PStr mp),
        (''docstring'', PStr (or_empty (get_docstring body))),
        (''is_abstract'', PBool (Name ''ABC'' \<in> set bases))]"
    by (simp add: entities_parse_class)
next
  show "filter (\<lambda>r. rel_type r = INHERITS_FROM)
     (relationships (parse_class mp cn bases decs body ln st)) =
   filter (\<lambda>r. rel_type r = INHERITS_FROM) (relationships st) @
     map (RelInfo INHERITS_FROM (mp @ ''.'' @ cn)) (inherited_names bases)"
    by (rule inherits_parse_class)
qed

theorem inheritance_and_abstract_sentinel_witness:
  "filter (\<lambda>r. rel_type r = INHERITS_FROM)
     (relationships (parse_class ''m'' ''C'' [Name ''Base1'', Name ''Base2''] [] [] 1 init_parser)) =
     [RelInfo INHERITS_FROM ''m.C'' ''Base1'', RelInfo INHERITS_FROM ''m.C'' ''Base2''] \<and>
   filter (\<lambda>r. rel_type r = INHERITS_FROM)
     (relationships (parse_class ''m'' ''C'' [Name ''ABC''] [] [] 1 init_parser)) = [] \<and>
   entities (parse_class ''m'' ''C'' [Name ''ABC''] [] [] 1 init_parser) ! 0 =
     EntInfo CLASS ''m.C'' 1
       [(''name'', PStr ''C''), (''module_path'', PStr ''m''), (''docstring'', PStr []),
        (''is_abstract'', PBool True)]"
  using inheritance_and_abstract_sentinel
      [of "''Base1''" "''Base2''" "''m''" "''C''" "[]" "[]" 1 init_parser "[Name ''ABC'']"]
  by (simp add: or_empty_def)

section \<open>Containment\<close>

lemma entities_parse_import_plain:
  "entities (parse_import_plain mp names ln st) =
     entities st @
       map (\<lambda>alias. EntInfo IMPORT (mp @ ''.import.'' @ alias) ln
                     [(''module_name'', PStr alias),
                      (''imported_names'', PList [alias]),
                      (''is_from_import'', PBool False)])
         names"
proof -
  have "\<And>x. appends (\<lambda>st. append_relationship (RelInfo IMPORTS mp x)
      (append_entity (EntInfo IMPORT (mp @ ''.import.'' @ x) ln
         [(''module_name'', PStr x), (''imported_names'', PList [x]),
          (''is_from_import'', PBool False)]) st))"
    by (simp add: appends_comp)
  then show ?thesis
    by (simp add: parse_import_plain_def fold_entities)
qed

lemma relationships_parse_import_plain:
  "relationships (parse_import_plain mp names ln st) =
     relationships st @ map (RelInfo IMPORTS mp) names"
proof -
  have "\<And>x. appends (\<lambda>st. append_relationship (RelInfo IMPORTS mp x)
      (append_entity (EntInfo IMPORT (mp @ ''.import.'' @ x) ln
         [(''module_name'', PStr x), (''imported_names'', PList [x]),
          (''is_from_import'', PBool False)]) st))"
    by (simp add: appends_comp)
  then show ?thesis
    by (simp add: parse_import_plain_def fold_relationships)
qed

lemma entities_parse_import_from:
  "entities (parse_import_from mp m names ln st) =
     entities st @
       [EntInfo IMPORT (mp @ ''.import.'' @ or_empty m) ln
          [(''module_name'', PStr (or_empty m)),
           (''imported_names'', PList names),
           (''is_from_import'', PBool True)]]"
  by (simp add: parse_import_from_def Let_def)

lemma relationships_parse_import_from:
  "relationships (parse_import_from mp m names ln st) =
     relationships st @ (if or_empty m \<noteq> [] then [RelInfo IMPORTS mp (or_empty m)] else [])"
  by (simp add: parse_import_from_def Let_def)

lemma filter_fst_walk: "filter fst (walk q) = filter fst q"
proof (induction q rule: walk.induct)
  case 1
  show ?case by simp
next
  case (2 t n todo)
  have "filter fst (map (Pair False) (children n)) = []"
    by (induction "children n") (simp_all add: filter_map comp_def)
  with 2 show ?case by simp
qed

lemma parse_entities_Module:
  "parse_entities fp mp (Module body) =
     module_entity fp mp body #
       concat (map (\<lambda>x. entities (visit mp x init_parser)) (walk (map (Pair True) body)))"
  by (simp add: parse_entities_def parse_file_def fold_entities)

lemma parse_relationships_Module:
  "parse_relationships fp mp (Module body) =
     concat (map (\<lambda>x. relationships (visit mp x init_parser)) (walk (map (Pair True) body)))"
  by (simp add: parse_relationships_def parse_file_def fold_relationships)

text \<open>The names of the entities of one type.\<close>

lemma function_entities_parse_method:
  "filter (\<lambda>e. entity_type e = FUNCTION) (entities (parse_method mp cls item init_parser)) = []"
  by (cases item) (simp_all add: entities_parse_function EntInfo_def filter_map comp_def)

lemma method_names_parse_method:
  "map name (filter (\<lambda>e. entity_type e = METHOD) (entities (parse_method mp cls item init_parser)))
     = (case item of FuncDef a n args decs b ln \<Rightarrow> [cls @ ''.'' @ n] | _ \<Rightarrow> [])"
  by (cases item) (simp_all add: entities_parse_function EntInfo_def filter_map comp_def)

lemma contains_parse_method:
  "map (\<lambda>r. (source r, target r))
     (filter (\<lambda>r. rel_type r = CONTAINS) (relationships (parse_method mp cls item init_parser)))
     = (case item of FuncDef a n args decs b ln \<Rightarrow> [(cls, cls @ ''.'' @ n)] | _ \<Rightarrow> [])"
  by (cases item) (simp_all add: relationships_parse_function RelInfo_def filter_map comp_def)

lemma function_entities_parse_class:
  "filter (\<lambda>e. entity_type e = FUNCTION) (entities (parse_class mp cn bases decs body ln st)) =
   filter (\<lambda>e. entity_type e = FUNCTION) (entities st)"
proof -
  have "filter (\<lambda>e. entity_type e = FUNCTION)
      (concat (map (\<lambda>item. entities (parse_method mp (mp @ ''.'' @ cn) item init_parser)) body))
      = []"
    by (induction body) (simp_all add: function_entities_parse_method)
  then show ?thesis
    by (simp add: entities_parse_class EntInfo_def filter_map comp_def)
qed

lemma method_names_parse_class:
  "map name (filter (\<lambda>e. entity_type e = METHOD)
     (entities (parse_class mp cn bases decs body ln st))) =
   map name (filter (\<lambda>e. entity_type e = METHOD) (entities st)) @
     map (\<lambda>n. mp @ ''.'' @ cn @ ''.'' @ n) (function_names body)"
proof -
  have "map name (filter (\<lambda>e. entity_type e = METHOD)
      (concat (map (\<lambda>item. entities (parse_method mp (mp @ ''.'' @ cn) item init_parser)) body)))
      = map (\<lambda>n. mp @ ''.'' @ cn @ ''.'' @ n) (function_names body)"
    by (induction body)
      (simp_all add: method_names_parse_method function_names_def split: stmt.split)
  then show ?thesis
    by (simp add: entities_parse_class EntInfo_def filter_map comp_def)
qed

lemma contains_parse_class:
  "map (\<lambda>r. (source r, target r))
     (filter (\<lambda>r. rel_type r = CONTAINS) (relationships (parse_class mp cn bases decs body ln st)))
   = map (\<lambda>r. (source r, target r)) (filter (\<lambda>r. rel_type r = CONTAINS) (relationships st)) @
       (mp, mp @ ''.'' @ cn) #
       map (\<lambda>n. (mp @ ''.'' @ cn, mp @ ''.'' @ cn @ ''.'' @ n)) (function_names body)"
proof -
  have "map (\<lambda>r. (source r, target r)) (filter (\<lambda>r. rel_type r = CONTAINS)
      (concat (map (\<lambda>item. relationships (parse_method mp (mp @ ''.'' @ cn) item init_parser))
         body)))
      = map (\<lambda>n. (mp @ ''.'' @ cn, mp @ ''.'' @ cn @ ''.'' @ n)) (function_names body)"
    by (induction body)
      (simp_all add: contains_parse_method function_names_def split: stmt.split)
  then show ?thesis
    by (simp add: relationships_parse_class RelInfo_def filter_map comp_def)
qed


lemma container_names_parse_method:
  "map name (filter (\<lambda>e. entity_type e = CLASS \<or> entity_type e = FUNCTION \<or> entity_type e = METHOD)
     (entities (parse_method mp cls item init_parser)))
     = (case item of FuncDef a n args decs b ln \<Rightarrow> [cls @ ''.'' @ n] | _ \<Rightarrow> [])"
  by (cases item) (simp_all add: entities_parse_function EntInfo_def filter_map comp_def)

lemma container_names_parse_class:
  "map name (filter (\<lambda>e. entity_type e = CLASS \<or> entity_type e = FUNCTION \<or> entity_type e = METHOD)
     (entities (parse_class mp cn bases decs body ln init_parser))) =
   (mp @ ''.'' @ cn) # map (\<lambda>n. mp @ ''.'' @ cn @ ''.'' @ n) (function_names body)"
proof -
  have "map name (filter (\<lambda>e. entity_type e = CLASS \<or> entity_type e = FUNCTION \<or> entity_type e = METHOD)
      (concat (map (\<lambda>item. entities (parse_method mp (mp @ ''.'' @ cn) item init_parser)) body)))
      = map (\<lambda>n. mp @ ''.'' @ cn @ ''.'' @ n) (function_names body)"
    by (induction body)
      (simp_all add: container_names_parse_method function_names_def split: stmt.split)
  then show ?thesis
    by (simp add: entities_parse_class EntInfo_def filter_map comp_def)
qed

lemma visit_function_names:
  "map name (filter (\<lambda>e. entity_type e = FUNCTION) (entities (visit mp (t, node) init_parser))) =
     (if t then (case node of FuncDef a n args decs b ln \<Rightarrow> [mp @ ''.'' @ n] | _ \<Rightarrow> []) else [])"
  by (cases node)
    (simp_all add: function_entities_parse_class entities_parse_function
      entities_parse_import_plain entities_parse_import_from EntInfo_def filter_map comp_def)

lemma visit_contains_paired:
  "map target (filter (\<lambda>r. rel_type r = CONTAINS) (relationships (visit mp x init_parser))) =
   map name (filter (\<lambda>e. entity_type e = CLASS \<or> entity_type e = FUNCTION \<or> entity_type e = METHOD)
     (entities (visit mp x init_parser)))"
proof (cases x)
  case (Pair t node)
  show ?thesis
  proof (cases node)
    case (ClassDef cn bases decs body ln)
    have "map target (filter (\<lambda>r. rel_type r = CONTAINS)
        (relationships (parse_class mp cn bases decs body ln init_parser))) =
      map snd (map (\<lambda>r. (source r, target r)) (filter (\<lambda>r. rel_type r = CONTAINS)
        (relationships (parse_class mp cn bases decs body ln init_parser))))"
      by (simp add: comp_def)
    also have "\<dots> = (mp @ ''.'' @ cn) # map (\<lambda>n. mp @ ''.'' @ cn @ ''.'' @ n) (function_names body)"
      by (simp only: contains_parse_class) (simp add: comp_def)
    finally show ?thesis
      by (simp add: Pair ClassDef container_names_parse_class)
  next
    case (FuncDef a n args decs body ln)
    then show ?thesis
      by (simp add: Pair relationships_parse_function entities_parse_function
          EntInfo_def RelInfo_def filter_map comp_def)
  next
    case (Import names ln)
    then show ?thesis
      by (simp add: Pair relationships_parse_import_plain entities_parse_import_plain
          EntInfo_def RelInfo_def filter_map comp_def)
  next
    case (ImportFrom m names ln)
    then show ?thesis
      by (simp add: Pair relationships_parse_import_from entities_parse_import_from
          EntInfo_def RelInfo_def)
  next
    case (ExprStr s)
    then show ?thesis by (simp add: Pair)
  next
    case (OtherNode cs)
    then show ?thesis by (simp add: Pair)
  qed
qed

lemma concat_map_filter_nonempty:
  assumes "\<And>x. \<not> P x \<Longrightarrow> g x = []"
  shows "concat (map g xs) = concat (map g (filter P xs))"
  by (induction xs) (simp_all add: assms)

lemma top_level_function_names:
  "map name (filter (\<lambda>e. entity_type e = FUNCTION) (parse_entities fp mp (Module body))) =
   map (\<lambda>n. mp @ ''.'' @ n) (function_names body)"
proof -
  let ?g = "\<lambda>x. map name (filter (\<lambda>e. entity_type e = FUNCTION) (entities (visit mp x init_parser)))"
  have g: "\<And>x. \<not> fst x \<Longrightarrow> ?g x = []"
  proof -
    fix x :: "bool \<times> stmt"
    assume nt: "\<not> fst x"
    obtain t n where x: "x = (t, n)" by (cases x)
    with nt have "\<not> t" by simp
    then show "?g x = []"
      unfolding x by (simp only: visit_function_names if_False)
  qed
  have "map name (filter (\<lambda>e. entity_type e = FUNCTION) (parse_entities fp mp (Module body))) =
      concat (map ?g (walk (map (Pair True) body)))"
    by (simp add: parse_entities_Module module_entity_def EntInfo_def map_concat
        filter_concat comp_def)
  also have "\<dots> = concat (map ?g (filter fst (walk (map (Pair True) body))))"
    by (rule concat_map_filter_nonempty) (rule g)
  also have "\<dots> = concat (map ?g (map (Pair True) body))"
    by (simp add: filter_fst_walk filter_map comp_def)
  also have "\<dots> = map (\<lambda>n. mp @ ''.'' @ n) (function_names body)"
    by (induction body)
      (simp_all add: visit_function_names function_names_def split: stmt.split)
  finally show ?thesis .
qed

lemma contains_paired_with_entities:
  "map target (filter (\<lambda>r. rel_type r = CONTAINS) (parse_relationships fp mp (Module body))) =
   map name (filter (\<lambda>e. entity_type e = CLASS \<or> entity_type e = FUNCTION \<or> entity_type e = METHOD)
     (parse_entities fp mp (Module body)))"
proof -
  have "\<And>xs. map target (filter (\<lambda>r. rel_type r = CONTAINS)
        (concat (map (\<lambda>x. relationships (visit mp x init_parser)) xs))) =
      map name (filter (\<lambda>e. entity_type e = CLASS \<or> entity_type e = FUNCTION \<or> entity_type e = METHOD)
        (concat (map (\<lambda>x. entities (visit mp x init_parser)) xs)))"
  proof -
    fix xs :: "(bool \<times> stmt) list"
    show "map target (filter (\<lambda>r. rel_type r = CONTAINS)
        (concat (map (\<lambda>x. relationships (visit mp x init_parser)) xs))) =
      map name (filter (\<lambda>e. entity_type e = CLASS \<or> entity_type e = FUNCTION \<or> entity_type e = METHOD)
        (concat (map (\<lambda>x. entities (visit mp x init_parser)) xs)))"
      by (induction xs) (simp_all add: visit_contains_paired)
  qed
  then show ?thesis
    by (simp add: parse_entities_Module parse_relationships_Module module_entity_def
        EntInfo_def)
qed

lemma container_entities_parse_method:
  "map (\<lambda>e. (entity_type e, name e))
     (filter (\<lambda>e. entity_type e = CLASS \<or> entity_type e = FUNCTION \<or> entity_type e = METHOD)
        (entities (parse_method mp cls item init_parser)))
     = (case item of FuncDef a n args decs b ln \<Rightarrow> [(METHOD, cls @ ''.'' @ n)] | _ \<Rightarrow> [])"
  by (cases item) (simp_all add: entities_parse_function EntInfo_def filter_map comp_def)

lemma container_entities_parse_class:
  "map (\<lambda>e. (entity_type e, name e))
     (filter (\<lambda>e. entity_type e = CLASS \<or> entity_type e = FUNCTION \<or> entity_type e = METHOD)
        (entities (parse_class mp cn bases decs body ln init_parser))) =
   (CLASS, mp @ ''.'' @ cn) # map (\<lambda>n. (METHOD, mp @ ''.'' @ cn @ ''.'' @ n)) (function_names body)"
proof -
  have "map (\<lambda>e. (entity_type e, name e))
      (filter (\<lambda>e. entity_type e = CLASS \<or> entity_type e = FUNCTION \<or> entity_type e = METHOD)
        (concat (map (\<lambda>item. entities (parse_method mp (mp @ ''.'' @ cn) item init_parser))
           body)))
      = map (\<lambda>n. (METHOD, mp @ ''.'' @ cn @ ''.'' @ n)) (function_names body)"
    by (induction body)
      (simp_all add: container_entities_parse_method function_names_def split: stmt.split)
  then show ?thesis
    by (simp add: entities_parse_class EntInfo_def filter_map comp_def)
qed

lemma visit_contains_pairs:
  "map (\<lambda>r. (source r, target r))
     (filter (\<lambda>r. rel_type r = CONTAINS) (relationships (visit mp x init_parser))) =
   map snd (containment mp x)"
proof (cases x)
  case (Pair t node)
  show ?thesis
    unfolding Pair
    by (cases node)
       (simp_all add: contains_parse_class relationships_parse_function
          relationships_parse_import_plain relationships_parse_import_from RelInfo_def
          filter_map comp_def)
qed

lemma visit_container_entities:
  "map (\<lambda>e. (entity_type e, name e))
     (filter (\<lambda>e. entity_type e = CLASS \<or> entity_type e = FUNCTION \<or> entity_type e = METHOD)
        (entities (visit mp x init_parser))) =
   map (\<lambda>(ty, p, i). (ty, i)) (containment mp x)"
proof (cases x)
  case (Pair t node)
  show ?thesis
    unfolding Pair
    by (cases node)
       (simp_all add: container_entities_parse_class entities_parse_function
          entities_parse_import_plain entities_parse_import_from EntInfo_def
          filter_map comp_def)
qed

lemma contains_pairs_of_file:
  "map (\<lambda>r. (source r, target r))
     (filter (\<lambda>r. rel_type r = CONTAINS) (parse_relationships fp mp (Module body))) =
   map snd (concat (map (containment mp) (walk (map (Pair True) body))))"
proof -
  have "map (\<lambda>r. (source r, target r)) (filter (\<lambda>r. rel_type r = CONTAINS)
        (concat (map (\<lambda>x. relationships (visit mp x init_parser)) xs))) =
      map snd (concat (map (containment mp) xs))" for xs
    by (induction xs) (simp_all add: visit_contains_pairs)
  then show ?thesis
    by (simp add: parse_relationships_Module)
qed

lemma container_entities_of_file:
  "map (\<lambda>e. (entity_type e, name e))
     (filter (\<lambda>e. entity_type e = CLASS \<or> entity_type e = FUNCTION \<or> entity_type e = METHOD)
        (parse_entities fp mp (Module body))) =
   map (\<lambda>(ty, p, i). (ty, i)) (concat (map (containment mp) (walk (map (Pair True) body))))"
proof -
  have "map (\<lambda>e. (entity_type e, name e))
      (filter (\<lambda>e. entity_type e = CLASS \<or> entity_type e = FUNCTION \<or> entity_type e = METHOD)
        (concat (map (\<lambda>x. entities (visit mp x init_parser)) xs))) =
      map (\<lambda>(ty, p, i). (ty, i)) (concat (map (containment mp) xs))" for xs
    by (induction xs) (simp_all add: visit_container_entities)
  then show ?thesis
    by (simp add: parse_entities_Module module_entity_def EntInfo_def)
qed

text \<open>
  C8, as amended. Function entities are emitted for exactly the function definitions
  that are elements of the module body; a class emits no Function entity, and emits
  each function definition of its body once, as a Method entity with a CONTAINS
  relationship from the class id. The CONTAINS relationships of a file are, in order,
  one for each Class, Function and Method entity emitted: the target is the id of
  that entity, the source is the module path for a class and for a function of the
  module body, and the id of the class for a method. No other relationship of the
  file is a CONTAINS relationship.
\<close>

theorem containment_exclusivity:
  "map name (filter (\<lambda>e. entity_type e = FUNCTION) (parse_entities fp mp (Module body))) =
     map (\<lambda>n. mp @ ''.'' @ n) (function_names body) \<and>
   filter (\<lambda>e. entity_type e = FUNCTION)
     (entities (parse_class mp cn bases decs cbody ln init_parser)) = [] \<and>
   map name (filter (\<lambda>e. entity_type e = METHOD)
     (entities (parse_class mp cn bases decs cbody ln init_parser))) =
     map (\<lambda>n. mp @ ''.'' @ cn @ ''.'' @ n) (function_names cbody) \<and>
   map (\<lambda>r. (source r, target r)) (filter (\<lambda>r. rel_type r = CONTAINS)
     (relationships (parse_class mp cn bases decs cbody ln init_parser))) =
     (mp, mp @ ''.'' @ cn) #
     map (\<lambda>n. (mp @ ''.'' @ cn, mp @ ''.'' @ cn @ ''.'' @ n)) (function_names cbody) \<and>
   map target (filter (\<lambda>r. rel_type r = CONTAINS) (parse_relationships fp mp (Module body))) =
     map name (filter (\<lambda>e. entity_type e = CLASS \<or> entity_type e = FUNCTION \<or> entity_type e = METHOD)
       (parse_entities fp mp (Module body))) \<and>
   map (\<lambda>e. (entity_type e, name e))
     (filter (\<lambda>e. entity_type e = CLASS \<or> entity_type e = FUNCTION \<or> entity_type e = METHOD)
        (parse_entities fp mp (Module body))) =
     map (\<lambda>(ty, p, i). (ty, i))
       (concat (map (containment mp) (walk (map (Pair True) body)))) \<and>
   map (\<lambda>r. (source r, target r))
     (filter (\<lambda>r. rel_type r = CONTAINS) (parse_relationships fp mp (Module body))) =
     map snd
       (concat (map (containment mp) (walk (map (Pair True) body)))) \<and>
   containment mp (True, FuncDef a n args fdecs fbody fln) = [(FUNCTION, mp, mp @ ''.'' @ n)] \<and>
   containment mp (False, FuncDef a n args fdecs fbody fln) = [] \<and>
   containment mp (t, ClassDef cn bases decs cbody ln) =
     (CLASS, mp, mp @ ''.'' @ cn) #
     map (\<lambda>n. (METHOD, mp @ ''.'' @ cn, mp @ ''.'' @ cn @ ''.'' @ n)) (function_names cbody)"
  by (simp add: top_level_function_names function_entities_parse_class
      method_names_parse_class contains_parse_class contains_paired_with_entities
      container_entities_of_file contains_pairs_of_file)

text \<open>
  The claim as stated fails on its last part: parsing \<open>import os\<close> in module \<open>m\<close>
  gives the Module entity \<open>m\<close> and the Import entity \<open>m.import.os\<close> and the one
  relationship IMPORTS from \<open>m\<close> to \<open>os\<close>, so neither entity is the target of any
  relationship: neither has a containing parent.
\<close>

theorem import_entity_has_no_parent:
  "parse_entities ''m.py'' ''m'' (Module import_os_body) =
     [EntInfo MODULE ''m'' 1
        [(''path'', PStr ''m''), (''file_path'', PStr ''m.py''), (''docstring'', PStr [])],
      EntInfo IMPORT ''m.import.os'' 1
        [(''module_name'', PStr ''os''), (''imported_names'', PList [''os'']),
         (''is_from_import'', PBool False)]] \<and>
   parse_relationships ''m.py'' ''m'' (Module import_os_body) = [RelInfo IMPORTS ''m'' ''os''] \<and>
   ''m.import.os'' \<notin> set (map target (parse_relationships ''m.py'' ''m'' (Module import_os_body))) \<and>
   ''m'' \<notin> set (map target (parse_relationships ''m.py'' ''m'' (Module import_os_body)))"
  by (simp add: parse_entities_def parse_relationships_def import_os_body_def parser_defs
      EntInfo_def RelInfo_def)

section \<open>The graph store: merging entities\<close>

lemma set_props_apply:
  "set_props p kvs k =
     (case map_of (rev kvs) k of
        None \<Rightarrow> p k
      | Some v \<Rightarrow> (if v = PNone then None else Some v))"
  unfolding set_props_def
proof (induction kvs arbitrary: p)
  case Nil
  show ?case by simp
next
  case (Cons kv kvs)
  obtain k' v' where kv: "kv = (k', v')" by (cases kv)
  show ?case
    by (simp add: kv Cons.IH map_add_def split: option.split)
qed

lemma set_props_idem: "set_props (set_props p kvs) kvs = set_props p kvs"
  by (rule ext) (simp add: set_props_apply split: option.split)

lemma set_props_append: "set_props p (kvs @ kvs') = set_props (set_props p kvs) kvs'"
  by (simp add: set_props_def)

lemma set_props_name:
  "''name'' \<notin> fst ` set kvs \<Longrightarrow> set_props p kvs ''name'' = p ''name''"
proof -
  assume "''name'' \<notin> fst ` set kvs"
  then have "''name'' \<notin> fst ` set (rev kvs)" by simp
  then have "map_of (rev kvs) ''name'' = None"
    by (simp add: map_of_eq_None_iff)
  then show ?thesis by (simp add: set_props_apply)
qed

lemma matches_key: "matches l v nd \<longleftrightarrow> v \<noteq> PNone \<and> node_key nd = (l, Some v)"
  by (auto simp: matches_def has_name_def node_key_def)

lemma node_key_set_node:
  "''name'' \<notin> fst ` set kvs \<Longrightarrow> node_key (set_node l v kvs nd) = node_key nd"
  by (simp add: set_node_def node_key_def set_props_name)

lemma node_key_set_nodes: "entity_part q \<Longrightarrow> node_key (set_nodes q nd) = node_key nd"
  by (cases q) (simp_all add: node_key_set_node)

lemma node_key_fold_set_nodes:
  "\<forall>q \<in> set qs. entity_part q \<Longrightarrow> node_key (fold set_nodes qs nd) = node_key nd"
  by (induction qs arbitrary: nd) (simp_all add: node_key_set_nodes)

lemma merge_entity_nodes:
  assumes "v \<noteq> PNone"
  shows "nodes (merge_entity l v kvs g) =
     (if \<exists>nd \<in> set (nodes g). matches l v nd
      then map (set_node l v kvs) (nodes g)
      else nodes g @ [set_node l v kvs (base_node l v)])"
proof -
  have "matches l v (base_node l v)"
    using assms by (simp add: matches_def has_name_def base_node_def)
  then show ?thesis
    by (auto simp: merge_entity_def list_ex_iff matches_def set_node_def base_node_def)
qed

lemma rels_merge_entity [simp]: "rels (merge_entity l v kvs g) = rels g"
  by (simp add: merge_entity_def)


lemma merge_entity_graph:
  "merge_entity l v kvs g = g\<lparr>nodes := nodes (merge_entity l v kvs g)\<rparr>"
  by (simp add: merge_entity_def)

lemma node_key_query_base: "node_key (query_base q) = query_key q"
  by (cases q) (simp_all add: node_key_def base_node_def)

lemma created_keys: "nd \<in> set (created qs K) \<Longrightarrow> node_key nd \<notin> K"
proof (induction qs arbitrary: K)
  case Nil
  then show ?case by simp
next
  case (Cons q qs)
  show ?case
  proof (cases "query_key q \<in> K")
    case True
    with Cons show ?thesis by simp
  next
    case False
    with Cons.prems have "nd = query_base q \<or> nd \<in> set (created qs (insert (query_key q) K))"
      by simp
    then show ?thesis
    proof
      assume "nd = query_base q"
      with False show ?thesis by (simp add: node_key_query_base)
    next
      assume "nd \<in> set (created qs (insert (query_key q) K))"
      then have "node_key nd \<notin> insert (query_key q) K" by (rule Cons.IH)
      then show ?thesis by simp
    qed
  qed
qed

lemma created_covers:
  "q \<in> set qs \<Longrightarrow> query_key q \<in> K \<union> node_key ` set (created qs K)"
proof (induction qs arbitrary: K)
  case Nil
  then show ?case by simp
next
  case (Cons p qs)
  show ?case
  proof (cases "query_key p \<in> K")
    case True
    with Cons show ?thesis by auto
  next
    case False
    have base: "query_key p \<in> node_key ` set (created (p # qs) K)"
      using False by (simp add: node_key_query_base)
    show ?thesis
    proof (cases "q = p")
      case True
      with base show ?thesis by simp
    next
      case neq: False
      with Cons.prems have "q \<in> set qs" by simp
      then have "query_key q \<in> insert (query_key p) K
          \<union> node_key ` set (created qs (insert (query_key p) K))"
        by (rule Cons.IH)
      with False show ?thesis by (auto simp: node_key_query_base)
    qed
  qed
qed

lemma created_empty: "\<forall>q \<in> set qs. query_key q \<in> K \<Longrightarrow> created qs K = []"
  by (induction qs) simp_all

lemma set_nodes_other_key:
  "entity_part q \<Longrightarrow> node_key nd \<noteq> query_key q \<Longrightarrow> set_nodes q nd = nd"
  by (cases q) (simp_all add: set_node_def matches_key)

lemma fold_set_nodes_written:
  "\<forall>q \<in> set qs. entity_part q \<Longrightarrow>
     fold set_nodes qs nd = nd\<lparr>props := set_props (props nd) (concat (map (written nd) qs))\<rparr>"
proof (induction qs arbitrary: nd)
  case Nil
  show ?case by (simp add: set_props_def)
next
  case (Cons q qs)
  then have q: "entity_part q" and qs: "\<forall>q \<in> set qs. entity_part q" by simp_all
  have key: "node_key (set_nodes q nd) = node_key nd"
    using q by (rule node_key_set_nodes)
  have w: "map (written (set_nodes q nd)) qs = map (written nd) qs"
  proof (rule map_cong [OF refl])
    fix p
    show "written (set_nodes q nd) p = written nd p"
      using key by (cases p) (simp_all add: matches_key)
  qed
  have s: "set_nodes q nd = nd\<lparr>props := set_props (props nd) (written nd q)\<rparr>"
    by (cases q) (simp_all add: set_node_def set_props_def)
  have "fold set_nodes (q # qs) nd = fold set_nodes qs (set_nodes q nd)" by simp
  also have "\<dots> = (set_nodes q nd)\<lparr>props :=
      set_props (props (set_nodes q nd)) (concat (map (written (set_nodes q nd)) qs))\<rparr>"
    using qs by (rule Cons.IH)
  also have "\<dots> = nd\<lparr>props := set_props (props nd) (concat (map (written nd) (q # qs)))\<rparr>"
    by (simp only: w) (simp add: s set_props_append)
  finally show ?case .
qed

lemma fold_set_nodes_idem:
  assumes "\<forall>q \<in> set qs. entity_part q"
  shows "fold set_nodes qs (fold set_nodes qs nd) = fold set_nodes qs nd"
proof -
  let ?nd' = "fold set_nodes qs nd"
  have key: "node_key ?nd' = node_key nd"
    using assms by (rule node_key_fold_set_nodes)
  have w: "map (written ?nd') qs = map (written nd) qs"
  proof (rule map_cong [OF refl])
    fix p
    show "written ?nd' p = written nd p"
      using key by (cases p) (simp_all add: matches_key)
  qed
  have "fold set_nodes qs ?nd' =
      ?nd'\<lparr>props := set_props (props ?nd') (concat (map (written ?nd') qs))\<rparr>"
    using assms by (rule fold_set_nodes_written)
  also have "\<dots> = ?nd'\<lparr>props := set_props (props ?nd') (concat (map (written nd) qs))\<rparr>"
    by (simp only: w)
  also have "\<dots> = ?nd'"
    by (simp add: fold_set_nodes_written [OF assms] set_props_idem)
  finally show ?thesis .
qed


lemma run_entity_queries:
  "\<forall>q \<in> set qs. entity_part q \<Longrightarrow>
     run_queries qs g =
       Some (g\<lparr>nodes := map (fold set_nodes qs)
                 (nodes g @ created qs (node_key ` set (nodes g)))\<rparr>)"
proof (induction qs arbitrary: g)
  case Nil
  show ?case by simp
next
  case (Cons q qs)
  then have q: "entity_part q" and qs: "\<forall>q \<in> set qs. entity_part q" by simp_all
  obtain l v kvs where Q: "q = MergeEntity l v kvs" and v: "v \<noteq> PNone"
    and kvs: "''name'' \<notin> fst ` set kvs"
    using q by (cases q) simp_all
  let ?K = "node_key ` set (nodes g)"
  let ?g' = "merge_entity l v kvs g"
  have run: "run_queries (q # qs) g = run_queries qs ?g'"
    by (simp add: Q v)
  have IH: "run_queries qs ?g' =
      Some (?g'\<lparr>nodes := map (fold set_nodes qs)
                 (nodes ?g' @ created qs (node_key ` set (nodes ?g')))\<rparr>)"
    using qs by (rule Cons.IH)
  have upd: "?g'\<lparr>nodes := ns\<rparr> = g\<lparr>nodes := ns\<rparr>" for ns
    by (simp add: merge_entity_def)
  have ex: "(\<exists>nd \<in> set (nodes g). matches l v nd) \<longleftrightarrow> query_key q \<in> ?K"
    by (auto simp: Q matches_key v intro: rev_image_eqI)
  show ?case
  proof (cases "query_key q \<in> ?K")
    case True
    then have n': "nodes ?g' = map (set_nodes q) (nodes g)"
      using ex by (simp add: merge_entity_nodes [OF v] Q) 
    have K': "node_key ` set (nodes ?g') = ?K"
      by (simp add: n' image_image node_key_set_nodes [OF q])
    have same: "map (set_nodes q) (created qs ?K) = created qs ?K"
    proof (rule map_idI)
      fix nd
      assume "nd \<in> set (created qs ?K)"
      then have "node_key nd \<notin> ?K" by (rule created_keys)
      with True have "node_key nd \<noteq> query_key q" by auto
      with q show "set_nodes q nd = nd" by (rule set_nodes_other_key)
    qed
    have "map (fold set_nodes qs) (nodes ?g' @ created qs (node_key ` set (nodes ?g'))) =
        map (fold set_nodes qs) (map (set_nodes q) (nodes g @ created qs ?K))"
      by (subst K') (simp add: n' same)
    also have "\<dots> = map (fold set_nodes (q # qs)) (nodes g @ created (q # qs) ?K)"
      using True by (simp add: comp_def)
    finally show ?thesis
      by (simp only: run IH upd)
  next
    case False
    then have n': "nodes ?g' = nodes g @ [set_nodes q (query_base q)]"
      using ex by (simp add: merge_entity_nodes [OF v] Q)
    have K': "node_key ` set (nodes ?g') = insert (query_key q) ?K"
      by (simp add: n' node_key_set_nodes [OF q] node_key_query_base)
    have old: "map (set_nodes q) (nodes g) = nodes g"
    proof (rule map_idI)
      fix nd
      assume "nd \<in> set (nodes g)"
      with False have "node_key nd \<noteq> query_key q" by (metis imageI)
      with q show "set_nodes q nd = nd" by (rule set_nodes_other_key)
    qed
    have new: "map (set_nodes q) (created qs (insert (query_key q) ?K)) =
        created qs (insert (query_key q) ?K)"
    proof (rule map_idI)
      fix nd
      assume "nd \<in> set (created qs (insert (query_key q) ?K))"
      then have "node_key nd \<notin> insert (query_key q) ?K" by (rule created_keys)
      then have "node_key nd \<noteq> query_key q" by auto
      with q show "set_nodes q nd = nd" by (rule set_nodes_other_key)
    qed
    have "map (fold set_nodes qs) (nodes ?g' @ created qs (node_key ` set (nodes ?g'))) =
        map (fold set_nodes qs)
          (map (set_nodes q) (nodes g @ query_base q # created qs (insert (query_key q) ?K)))"
      by (subst K') (simp add: n' old new)
    also have "\<dots> = map (fold set_nodes (q # qs)) (nodes g @ created (q # qs) ?K)"
      using False by (simp add: comp_def)
    finally show ?thesis
      by (simp only: run IH upd)
  qed
qed

lemma run_entity_queries_fixpoint:
  assumes qs: "\<forall>q \<in> set qs. entity_part q"
    and run: "run_queries qs g = Some g1"
    and h: "nodes h = nodes g1"
  shows "run_queries qs h = Some h"
proof -
  let ?F = "fold set_nodes qs"
  let ?C = "created qs (node_key ` set (nodes g))"
  have n1: "nodes g1 = map ?F (nodes g @ ?C)"
    using run run_entity_queries [OF qs, of g] by auto
  have keys: "node_key ` set (nodes h) = node_key ` set (nodes g) \<union> node_key ` set ?C"
    by (simp add: h n1 image_image node_key_fold_set_nodes [OF qs] image_Un)
  have "\<forall>q \<in> set qs. query_key q \<in> node_key ` set (nodes h)"
    unfolding keys by (intro ballI created_covers)
  then have none: "created qs (node_key ` set (nodes h)) = []"
    by (rule created_empty)
  have "map ?F (nodes h) = nodes h"
    by (simp add: h n1 fold_set_nodes_idem [OF qs])
  then have "h\<lparr>nodes := map ?F (nodes h @ created qs (node_key ` set (nodes h)))\<rparr> = h"
    by (simp add: none)
  then show ?thesis
    using run_entity_queries [OF qs, of h] by simp
qed

section \<open>The graph store: merging relationships\<close>

lemma nodes_merge_rel [simp]: "nodes (merge_rel t sd g) = nodes g"
  by (simp add: merge_rel_def)

lemma nodes_fold_merge_rel [simp]: "nodes (fold (merge_rel t) ps g) = nodes g"
  by (induction ps arbitrary: g) simp_all

lemma rels_fold_merge_rel:
  "set (rels (fold (merge_rel t) ps g)) = set (rels g) \<union> Pair t ` set ps"
  by (induction ps arbitrary: g) (auto simp: merge_rel_def)

lemma fold_merge_rel_present:
  "Pair t ` set ps \<subseteq> set (rels g) \<Longrightarrow> fold (merge_rel t) ps g = g"
  by (induction ps) (auto simp: merge_rel_def)

lemma nodes_match_merge_rel [simp]: "nodes (match_merge_rel t s d g) = nodes g"
  by (simp add: match_merge_rel_def)

lemma match_name_nodes: "nodes h = nodes g \<Longrightarrow> match_name v h = match_name v g"
  by (simp add: match_name_def)

lemma rels_match_merge_rel:
  "set (rels (match_merge_rel t s d g)) =
     set (rels g) \<union> Pair t ` (set (match_name s g) \<times> set (match_name d g))"
  by (simp add: match_merge_rel_def rels_fold_merge_rel)

lemma match_merge_rel_fixpoint:
  assumes "nodes h = nodes g" and "set (rels (match_merge_rel t s d g)) \<subseteq> set (rels h)"
  shows "match_merge_rel t s d h = h"
proof -
  have "Pair t ` set (List.product (match_name s h) (match_name d h)) \<subseteq> set (rels h)"
    using assms by (simp add: rels_match_merge_rel match_name_nodes [OF assms(1)])
  then show ?thesis
    unfolding match_merge_rel_def by (rule fold_merge_rel_present)
qed

lemma run_rel_queries:
  "\<forall>q \<in> set qs. rel_part q \<Longrightarrow>
     \<exists>g'. run_queries qs g = Some g' \<and> nodes g' = nodes g \<and> set (rels g) \<subseteq> set (rels g')"
proof (induction qs arbitrary: g)
  case Nil
  show ?case by simp
next
  case (Cons q qs)
  then obtain t s d ps where Q: "q = MergeRel t s d ps" by (cases q) simp_all
  from Cons obtain g' where "run_queries qs (match_merge_rel t s d g) = Some g'"
    and "nodes g' = nodes (match_merge_rel t s d g)"
    and "set (rels (match_merge_rel t s d g)) \<subseteq> set (rels g')"
    by (metis list.set_intros(2))
  then show ?case
    by (auto simp: Q rels_match_merge_rel)
qed

lemma run_rel_queries_fixpoint:
  assumes "\<forall>q \<in> set qs. rel_part q"
    and "run_queries qs g = Some g'"
    and "nodes h = nodes g"
    and "set (rels g') \<subseteq> set (rels h)"
  shows "run_queries qs h = Some h"
  using assms
proof (induction qs arbitrary: g)
  case Nil
  show ?case by simp
next
  case (Cons q qs)
  then obtain t s d ps where Q: "q = MergeRel t s d ps" by (cases q) simp_all
  let ?g1 = "match_merge_rel t s d g"
  have rest: "\<forall>q \<in> set qs. rel_part q" using Cons.prems(1) by simp
  have run: "run_queries qs ?g1 = Some g'" using Cons.prems(2) by (simp add: Q)
  obtain g'' where "run_queries qs ?g1 = Some g''" and "set (rels ?g1) \<subseteq> set (rels g'')"
    using run_rel_queries [OF rest, of ?g1] by blast
  with run have "set (rels ?g1) \<subseteq> set (rels g')" by simp
  with Cons.prems(4) have "set (rels ?g1) \<subseteq> set (rels h)" by blast
  with Cons.prems(3) have fixp: "match_merge_rel t s d h = h"
    by (rule match_merge_rel_fixpoint)
  have "run_queries qs h = Some h"
    using rest run _ Cons.prems(4) by (rule Cons.IH) (simp add: Cons.prems(3))
  then show ?case by (simp add: Q fixp)
qed

lemma run_queries_append:
  "run_queries (qs @ rs) g =
     (case run_queries qs g of None \<Rightarrow> None | Some g' \<Rightarrow> run_queries rs g')"
  by (induction qs arbitrary: g) (simp_all split: option.split)

lemma run_queries_not_null:
  "run_queries qs g = Some g' \<Longrightarrow> MergeEntity l v kvs \<in> set qs \<Longrightarrow> v \<noteq> PNone"
proof (induction qs arbitrary: g)
  case Nil
  then show ?case by simp
next
  case (Cons q qs)
  from Cons.prems(1) obtain g1 where r1: "run_query q g = Some g1"
    and r2: "run_queries qs g1 = Some g'"
    by (auto split: option.splits)
  from Cons.prems(2) consider "q = MergeEntity l v kvs" | "MergeEntity l v kvs \<in> set qs"
    by auto
  then show ?case
  proof cases
    case 1
    with r1 show ?thesis by (auto split: if_splits)
  next
    case 2
    with r2 show ?thesis by (rule Cons.IH)
  qed
qed

section \<open>The queries of index_file\<close>

lemma dict_pop_keys: "dict_pop k d = Some (v, d') \<Longrightarrow> k \<notin> fst ` set d'"
  by (auto simp: dict_pop_def split: option.splits)

lemma entity_query_shape:
  assumes "entity_query e = Some q"
  shows "\<exists>l v kvs. q = MergeEntity l v kvs \<and> ''name'' \<notin> fst ` set kvs"
proof -
  from assms obtain et d1 nm entity_dict l where
    "dict_pop ''name'' d1 = Some (nm, entity_dict)" and "q = MergeEntity l nm entity_dict"
    by (auto simp: entity_query_def split: option.splits pyval.splits)
  then show ?thesis
    using dict_pop_keys by blast
qed

lemma relationship_query_shape: "relationship_query r = Some q \<Longrightarrow> rel_part q"
  by (auto simp: relationship_query_def split: option.splits pyval.splits)

lemma those_append:
  "those (xs @ ys) = Some zs \<longleftrightarrow>
     (\<exists>a b. those xs = Some a \<and> those ys = Some b \<and> zs = a @ b)"
proof (induction xs arbitrary: zs)
  case Nil
  show ?case by simp
next
  case (Cons x xs)
  show ?case
    by (cases x) (auto simp: Cons.IH split: option.splits)
qed

lemma those_map_member:
  "those (map f xs) = Some ys \<Longrightarrow> y \<in> set ys \<Longrightarrow> \<exists>x \<in> set xs. f x = Some y"
proof (induction xs arbitrary: ys)
  case Nil
  then show ?case by simp
next
  case (Cons x xs)
  then show ?case
    by (cases "f x") (auto split: option.splits)
qed

lemma build_queries_split:
  assumes "build_queries es rs = Some qs"
  obtains eqs rqs where "qs = eqs @ rqs"
    and "those (map entity_query es) = Some eqs"
    and "those (map relationship_query rs) = Some rqs"
    and "\<forall>q \<in> set eqs. \<exists>l v kvs. q = MergeEntity l v kvs \<and> ''name'' \<notin> fst ` set kvs"
    and "\<forall>q \<in> set rqs. rel_part q"
proof -
  from assms obtain eqs rqs where 1: "those (map entity_query es) = Some eqs"
    and 2: "those (map relationship_query rs) = Some rqs" and 3: "qs = eqs @ rqs"
    unfolding build_queries_def those_append by blast
  have "\<forall>q \<in> set eqs. \<exists>l v kvs. q = MergeEntity l v kvs \<and> ''name'' \<notin> fst ` set kvs"
    using those_map_member [OF 1] entity_query_shape by blast
  moreover have "\<forall>q \<in> set rqs. rel_part q"
    using those_map_member [OF 2] relationship_query_shape by blast
  ultimately show thesis
    using 1 2 3 that by blast
qed

lemma batch_idempotent:
  assumes build: "build_queries es rs = Some qs"
    and run: "run_queries qs g = Some g1"
  shows "run_queries qs g1 = Some g1"
proof -
  from build obtain eqs rqs where qs: "qs = eqs @ rqs"
    and shape: "\<forall>q \<in> set eqs. \<exists>l v kvs. q = MergeEntity l v kvs \<and> ''name'' \<notin> fst ` set kvs"
    and rel: "\<forall>q \<in> set rqs. rel_part q"
    by (rule build_queries_split)
  from run obtain ge where ge: "run_queries eqs g = Some ge"
    and g1: "run_queries rqs ge = Some g1"
    by (auto simp: qs run_queries_append split: option.splits)
  have ent: "\<forall>q \<in> set eqs. entity_part q"
  proof
    fix q
    assume q: "q \<in> set eqs"
    with shape obtain l v kvs where Q: "q = MergeEntity l v kvs"
      and kvs: "''name'' \<notin> fst ` set kvs" by blast
    from ge q have "v \<noteq> PNone"
      unfolding Q by (rule run_queries_not_null)
    with kvs show "entity_part q" by (simp add: Q)
  qed
  obtain g' where "run_queries rqs ge = Some g'" and "nodes g' = nodes ge"
    using run_rel_queries [OF rel, of ge] by blast
  with g1 have nodes: "nodes g1 = nodes ge" by simp
  have 1: "run_queries eqs g1 = Some g1"
    using ent ge nodes by (rule run_entity_queries_fixpoint)
  have 2: "run_queries rqs g1 = Some g1"
    using rel g1 nodes by (rule run_rel_queries_fixpoint) simp
  show ?thesis
    by (simp add: qs run_queries_append 1 2)
qed

lemma batch_nodes_from_entities:
  assumes build: "build_queries es rs = Some qs"
    and run: "run_queries qs g = Some g1"
  shows "\<exists>eqs ge. those (map entity_query es) = Some eqs \<and> run_queries eqs g = Some ge \<and>
    nodes g1 = nodes ge"
proof -
  from build obtain eqs rqs where qs: "qs = eqs @ rqs"
    and eqs: "those (map entity_query es) = Some eqs"
    and rel: "\<forall>q \<in> set rqs. rel_part q"
    by (rule build_queries_split)
  from run obtain ge where ge: "run_queries eqs g = Some ge"
    and g1: "run_queries rqs ge = Some g1"
    by (auto simp: qs run_queries_append split: option.splits)
  obtain g' where "run_queries rqs ge = Some g'" and "nodes g' = nodes ge"
    using run_rel_queries [OF rel, of ge] by blast
  with g1 have "nodes g1 = nodes ge" by simp
  with eqs ge show ?thesis by blast
qed

section \<open>Idempotent persistence\<close>

text \<open>
  C4. Running \<open>index_file\<close> a second time on the same file, on the graph the first run
  left, succeeds and leaves that graph as it is: the same nodes with the same labels
  and properties and the same relationships, none duplicated.
\<close>

theorem index_file_idempotent:
  assumes "index_file file_path module_path src g = Inr g1"
  shows "index_file file_path module_path src g1 = Inr g1"
proof -
  from assms obtain es rs qs where parse: "parse_file file_path module_path src = Inr (es, rs)"
    and build: "build_queries es rs = Some qs"
    and run: "run_queries qs g = Some g1"
    by (auto simp: index_file_def execute_batch_write_def
        split: sum.splits option.splits prod.splits)
  have "run_queries qs g1 = Some g1"
    using build run by (rule batch_idempotent)
  then show ?thesis
    by (simp add: index_file_def execute_batch_write_def parse build)
qed

section \<open>Evaluating the indexer on small inputs\<close>

lemmas store_defs =
  index_file_def build_queries_def entity_query_def relationship_query_def to_dict_def
  rel_to_dict_def dict_update_def dict_pop_def execute_batch_write_def merge_entity_def
  match_merge_rel_def match_name_def merge_rel_def has_name_def set_props_def

lemma index_import_os:
  "index_file ''m.py'' ''m'' (Module import_os_body) empty_graph = Inr import_os_graph"
  by (simp add: import_os_body_def empty_graph_def import_os_graph_def store_defs parser_defs
      EntInfo_def RelInfo_def)

lemma index_empty_module:
  "index_file fp mp (Module []) \<lparr>nodes = ns, rels = rs\<rparr> =
     Inr (merge_entity ''Module'' (PStr mp)
            [(''line_number'', PInt 1), (''path'', PStr mp), (''file_path'', PStr fp),
             (''docstring'', PStr [])]
            \<lparr>nodes = ns, rels = rs\<rparr>)"
  by (simp add: index_file_def build_queries_def entity_query_def to_dict_def
      dict_update_def dict_pop_def execute_batch_write_def parser_defs EntInfo_def)

lemma index_syntax_error: "index_file fp mp SyntaxError g = Inl IndexerError"
  by (simp add: index_file_def parse_file_def)

section \<open>The queries built for the parser's output\<close>

lemma map_of_dict_set: "map_of (dict_set k v d) = (map_of d)(k \<mapsto> v)"
  by (induction d) (auto simp: fun_eq_iff)

lemma map_of_dict_update_other:
  "k \<notin> fst ` set e \<Longrightarrow> map_of (dict_update d e) k = map_of d k"
  unfolding dict_update_def
  by (induction e arbitrary: d) (auto simp: map_of_dict_set)

lemma map_of_dict_update_value:
  "map_of (dict_update d e) k = Some v \<Longrightarrow> map_of d k = Some v \<or> (k, v) \<in> set e"
  unfolding dict_update_def
proof (induction e arbitrary: d)
  case Nil
  then show ?case by simp
next
  case (Cons kv e)
  obtain k' v' where kv: "kv = (k', v')" by (cases kv)
  from Cons.prems have "map_of (fold (\<lambda>(k, v). dict_set k v) e (dict_set k' v' d)) k = Some v"
    by (simp add: kv)
  then have "map_of (dict_set k' v' d) k = Some v \<or> (k, v) \<in> set e"
    by (rule Cons.IH)
  then show ?case
    by (auto simp: kv map_of_dict_set split: if_splits)
qed

lemma map_of_dict_update_present:
  "map_of d k \<noteq> None \<Longrightarrow> map_of (dict_update d e) k \<noteq> None"
  unfolding dict_update_def
  by (induction e arbitrary: d) (auto simp: map_of_dict_set)

lemma map_of_filter_other:
  "k \<noteq> k' \<Longrightarrow> map_of (filter (\<lambda>kv. fst kv \<noteq> k') d) k = map_of d k"
  by (induction d) auto

lemma entity_query_parser_entity:
  assumes "parser_entity e"
  shows "\<exists>v kvs. entity_query e = Some (MergeEntity (entity_type_value (entity_type e)) v kvs) \<and>
    v \<noteq> PNone \<and> (''name'' \<notin> fst ` set (properties e) \<longrightarrow> v = PStr (name e))"
proof -
  let ?d0 = "[(''entity_type'', PStr (entity_type_value (entity_type e))),
        (''name'', PStr (name e)), (''line_number'', PInt (line_number e))]"
  have et: "map_of (to_dict e) ''entity_type'' = Some (PStr (entity_type_value (entity_type e)))"
    using assms by (simp add: to_dict_def parser_entity_def map_of_dict_update_other)
  have "map_of (to_dict e) ''name'' \<noteq> None"
    unfolding to_dict_def by (rule map_of_dict_update_present) simp
  then obtain v where nm: "map_of (to_dict e) ''name'' = Some v" by blast
  then have "map_of ?d0 ''name'' = Some v \<or> (''name'', v) \<in> set (properties e)"
    unfolding to_dict_def by (rule map_of_dict_update_value)
  then have v: "v \<noteq> PNone"
    using assms by (auto simp: parser_entity_def)
  have plain: "''name'' \<notin> fst ` set (properties e) \<longrightarrow> v = PStr (name e)"
    using nm by (auto simp: to_dict_def map_of_dict_update_other)
  have "entity_query e = Some (MergeEntity (entity_type_value (entity_type e)) v
      (filter (\<lambda>kv. fst kv \<noteq> ''name'') (filter (\<lambda>kv. fst kv \<noteq> ''entity_type'') (to_dict e))))"
    by (simp add: entity_query_def dict_pop_def et nm map_of_filter_other)
  with v plain show ?thesis by blast
qed

lemma merge_key_parser_entity:
  assumes "parser_entity e"
  shows "\<exists>v. merge_key e = Some (entity_type_value (entity_type e), v) \<and>
    (''name'' \<notin> fst ` set (properties e) \<longrightarrow> v = PStr (name e))"
  using entity_query_parser_entity [OF assms] by (auto simp: merge_key_def)

lemma relationship_query_plain:
  "rel_properties r = [] \<Longrightarrow>
     relationship_query r =
       Some (MergeRel (rel_type_value (rel_type r)) (PStr (source r)) (PStr (target r)) [])"
  by (simp add: relationship_query_def rel_to_dict_def dict_update_def dict_pop_def)

lemma entity_type_value_inj: "entity_type_value a = entity_type_value b \<Longrightarrow> a = b"
  by (cases a; cases b) simp_all

section \<open>Every entity and relationship of the parser is well formed\<close>

lemma parser_entity_parse_function:
  "e \<in> set (entities (parse_function mp a n args decs body ln im parent init_parser)) \<Longrightarrow>
     parser_entity e"
  by (auto simp: entities_parse_function parser_entity_def EntInfo_def split: if_splits)

lemma parser_entity_parse_method:
  "e \<in> set (entities (parse_method mp cls item init_parser)) \<Longrightarrow> parser_entity e"
  by (cases item) (simp_all add: parser_entity_parse_function)

lemma parser_entity_parse_class:
  "e \<in> set (entities (parse_class mp cn bases decs body ln init_parser)) \<Longrightarrow> parser_entity e"
  by (auto simp: entities_parse_class parser_entity_parse_method split: if_splits)
     (auto simp: parser_entity_def EntInfo_def)

lemma parser_entity_visit:
  "e \<in> set (entities (visit mp x init_parser)) \<Longrightarrow> parser_entity e"
proof (cases x)
  case (Pair t node)
  assume "e \<in> set (entities (visit mp x init_parser))"
  then show ?thesis
    unfolding Pair
  proof (cases node)
    case (ClassDef cn bases decs body ln)
    assume "e \<in> set (entities (visit mp (t, node) init_parser))"
    then show ?thesis by (simp add: ClassDef parser_entity_parse_class)
  next
    case (FuncDef a n args decs body ln)
    assume "e \<in> set (entities (visit mp (t, node) init_parser))"
    then show ?thesis by (simp add: FuncDef parser_entity_parse_function split: if_splits)
  next
    case (Import names ln)
    assume "e \<in> set (entities (visit mp (t, node) init_parser))"
    then show ?thesis
      by (auto simp: Import entities_parse_import_plain parser_entity_def EntInfo_def)
  next
    case (ImportFrom m names ln)
    assume "e \<in> set (entities (visit mp (t, node) init_parser))"
    then show ?thesis
      by (auto simp: ImportFrom entities_parse_import_from parser_entity_def EntInfo_def)
  next
    case (ExprStr s)
    assume "e \<in> set (entities (visit mp (t, node) init_parser))"
    then show ?thesis by (simp add: ExprStr)
  next
    case (OtherNode cs)
    assume "e \<in> set (entities (visit mp (t, node) init_parser))"
    then show ?thesis by (simp add: OtherNode)
  qed
qed

lemma parser_entity_parse_entities:
  "e \<in> set (parse_entities fp mp src) \<Longrightarrow> parser_entity e"
proof (cases src)
  case SyntaxError
  assume "e \<in> set (parse_entities fp mp src)"
  then show ?thesis by (simp add: SyntaxError parse_entities_def parse_file_def)
next
  case (Module body)
  assume "e \<in> set (parse_entities fp mp src)"
  then consider "e = module_entity fp mp body"
    | x where "e \<in> set (entities (visit mp x init_parser))"
    by (auto simp: Module parse_entities_Module)
  then show ?thesis
  proof cases
    case 1
    then show ?thesis by (simp add: parser_entity_def module_entity_def EntInfo_def)
  next
    case 2
    then show ?thesis by (rule parser_entity_visit)
  qed
qed

lemma plain_parse_function:
  "r \<in> set (relationships (parse_function mp a n args decs body ln im parent init_parser)) \<Longrightarrow>
     rel_properties r = []"
  by (auto simp: relationships_parse_function RelInfo_def split: if_splits)

lemma plain_parse_method:
  "r \<in> set (relationships (parse_method mp cls item init_parser)) \<Longrightarrow> rel_properties r = []"
  by (cases item) (simp_all add: plain_parse_function)

lemma plain_parse_class:
  "r \<in> set (relationships (parse_class mp cn bases decs body ln init_parser)) \<Longrightarrow>
     rel_properties r = []"
  by (auto simp: relationships_parse_class plain_parse_method split: if_splits)
     (auto simp: RelInfo_def)

lemma plain_visit:
  "r \<in> set (relationships (visit mp x init_parser)) \<Longrightarrow> rel_properties r = []"
proof (cases x)
  case (Pair t node)
  assume "r \<in> set (relationships (visit mp x init_parser))"
  then show ?thesis
    unfolding Pair
    by (cases node)
       (auto simp: plain_parse_class plain_parse_function relationships_parse_import_plain
          relationships_parse_import_from RelInfo_def split: if_splits)
qed

lemma plain_parse_relationships:
  "r \<in> set (parse_relationships fp mp src) \<Longrightarrow> rel_properties r = []"
proof (cases src)
  case SyntaxError
  assume "r \<in> set (parse_relationships fp mp src)"
  then show ?thesis by (simp add: SyntaxError parse_relationships_def parse_file_def)
next
  case (Module body)
  assume "r \<in> set (parse_relationships fp mp src)"
  then obtain x where "r \<in> set (relationships (visit mp x init_parser))"
    by (auto simp: Module parse_relationships_Module)
  then show ?thesis by (rule plain_visit)
qed


section \<open>Indexing a file that parses always succeeds\<close>

lemma those_total: "\<forall>x \<in> set xs. x \<noteq> None \<Longrightarrow> \<exists>ys. those xs = Some ys"
proof (induction xs)
  case Nil
  show ?case by simp
next
  case (Cons x xs)
  then obtain y ys where "x = Some y" and "those xs = Some ys" by auto
  then show ?case by simp
qed

lemma run_queries_total:
  "\<forall>l v kvs. MergeEntity l v kvs \<in> set qs \<longrightarrow> v \<noteq> PNone \<Longrightarrow> \<exists>g'. run_queries qs g = Some g'"
proof (induction qs arbitrary: g)
  case Nil
  show ?case by simp
next
  case (Cons q qs)
  then have rest: "\<forall>l v kvs. MergeEntity l v kvs \<in> set qs \<longrightarrow> v \<noteq> PNone" by simp
  show ?case
  proof (cases q)
    case (MergeEntity l v kvs)
    with Cons.prems have "v \<noteq> PNone" by simp
    then show ?thesis
      using Cons.IH [OF rest] by (simp add: MergeEntity)
  next
    case (MergeRel t s d ps)
    then show ?thesis
      using Cons.IH [OF rest] by simp
  qed
qed

lemma build_queries_parsed:
  assumes "parse_file fp mp src = Inr (es, rs)"
  shows "\<exists>qs. build_queries es rs = Some qs \<and>
    (\<forall>l v kvs. MergeEntity l v kvs \<in> set qs \<longrightarrow> v \<noteq> PNone)"
proof -
  have es: "es = parse_entities fp mp src" and rs: "rs = parse_relationships fp mp src"
    using assms by (simp_all add: parse_entities_def parse_relationships_def)
  have e: "\<forall>x \<in> set (map entity_query es). x \<noteq> None"
    using entity_query_parser_entity [OF parser_entity_parse_entities] unfolding es by fastforce
  have r: "\<forall>x \<in> set (map relationship_query rs). x \<noteq> None"
    using relationship_query_plain [OF plain_parse_relationships] unfolding rs by fastforce
  from e r have "\<forall>x \<in> set (map entity_query es @ map relationship_query rs). x \<noteq> None"
    by auto
  then obtain qs where qs: "build_queries es rs = Some qs"
    unfolding build_queries_def using those_total by blast
  then obtain eqs rqs where split: "qs = eqs @ rqs"
    and eqs: "those (map entity_query es) = Some eqs"
    and rqs: "\<forall>q \<in> set rqs. rel_part q"
    by (rule build_queries_split)
  have "v \<noteq> PNone" if "MergeEntity l v kvs \<in> set qs" for l v kvs
  proof -
    from that rqs have "MergeEntity l v kvs \<in> set eqs"
      unfolding split by auto
    then obtain x where x: "x \<in> set es" and q: "entity_query x = Some (MergeEntity l v kvs)"
      using those_map_member [OF eqs] by blast
    from x have "parser_entity x"
      unfolding es by (rule parser_entity_parse_entities)
    from entity_query_parser_entity [OF this] q show ?thesis by auto
  qed
  with qs show ?thesis by blast
qed

lemma index_file_total: "\<exists>g'. index_file fp mp (Module body) g = Inr g'"
proof -
  obtain es rs where parse: "parse_file fp mp (Module body) = Inr (es, rs)"
    by (simp add: parse_file_def Let_def)
  from build_queries_parsed [OF this] obtain qs where qs: "build_queries es rs = Some qs"
    and ok: "\<forall>l v kvs. MergeEntity l v kvs \<in> set qs \<longrightarrow> v \<noteq> PNone"
    by blast
  from run_queries_total [OF ok] obtain g' where "run_queries qs g = Some g'"
    by blast
  then show ?thesis
    by (simp add: index_file_def parse qs execute_batch_write_def)
qed

section \<open>Idempotent persistence on an example\<close>

theorem index_file_idempotent_witness:
  "index_file ''m.py'' ''m'' (Module import_os_body) empty_graph = Inr import_os_graph \<and>
   index_file ''m.py'' ''m'' (Module import_os_body) import_os_graph = Inr import_os_graph"
  using index_import_os index_file_idempotent [OF index_import_os] by simp

section \<open>Relationships and their endpoints\<close>

lemma set_match_name:
  "set (match_name v g) = {i. i < length (nodes g) \<and> has_name v (nodes g ! i)}"
  by (auto simp: match_name_def)

lemma index_file_nodes_from_entities:
  assumes "index_file fp mp src g = Inr g1"
  shows "\<exists>eqs ge. those (map entity_query (parse_entities fp mp src)) = Some eqs \<and>
    run_queries eqs g = Some ge \<and> nodes g1 = nodes ge"
proof -
  from assms obtain es rs qs where parse: "parse_file fp mp src = Inr (es, rs)"
    and build: "build_queries es rs = Some qs"
    and run: "run_queries qs g = Some g1"
    by (auto simp: index_file_def execute_batch_write_def
        split: sum.splits option.splits prod.splits)
  have "es = parse_entities fp mp src"
    using parse by (simp add: parse_entities_def)
  with batch_nodes_from_entities [OF build run] show ?thesis by simp
qed

text \<open>
  C1, as amended. The query built for an extracted relationship matches its source and
  its target by name among the nodes already in the graph and merges the relationship
  between every matching pair; it never creates a node. When no node has the source
  name, or none has the target name, the graph is left as it is. The nodes a batch
  leaves are those its entity queries leave.
\<close>

theorem relationship_upsert_matches_existing_nodes:
  "relationship_query (RelInfo t s d) =
     Some (MergeRel (rel_type_value t) (PStr s) (PStr d) []) \<and>
   run_query (MergeRel l S D ps) g = Some (match_merge_rel l S D g) \<and>
   nodes (match_merge_rel l S D g) = nodes g \<and>
   set (rels (match_merge_rel l S D g)) =
     set (rels g) \<union>
       Pair l ` ({i. i < length (nodes g) \<and> has_name S (nodes g ! i)} \<times>
                 {j. j < length (nodes g) \<and> has_name D (nodes g ! j)}) \<and>
   (match_name S g = [] \<or> match_name D g = [] \<longrightarrow> match_merge_rel l S D g = g) \<and>
   (index_file fp mp src g = Inr g1 \<longrightarrow>
      (\<exists>eqs ge. those (map entity_query (parse_entities fp mp src)) = Some eqs \<and>
         run_queries eqs g = Some ge \<and> nodes g1 = nodes ge))"
proof (intro conjI impI)
  show "relationship_query (RelInfo t s d) =
     Some (MergeRel (rel_type_value t) (PStr s) (PStr d) [])"
    by (simp add: relationship_query_plain RelInfo_def)
  show "run_query (MergeRel l S D ps) g = Some (match_merge_rel l S D g)"
    by simp
  show "nodes (match_merge_rel l S D g) = nodes g"
    by simp
  show "set (rels (match_merge_rel l S D g)) =
     set (rels g) \<union>
       Pair l ` ({i. i < length (nodes g) \<and> has_name S (nodes g ! i)} \<times>
                 {j. j < length (nodes g) \<and> has_name D (nodes g ! j)})"
    by (simp only: rels_match_merge_rel set_match_name)
next
  assume "match_name S g = [] \<or> match_name D g = []"
  moreover have "List.product xs [] = []" for xs :: "nat list"
    by (induction xs) simp_all
  ultimately have "List.product (match_name S g) (match_name D g) = []"
    by auto
  then show "match_merge_rel l S D g = g"
    by (simp add: match_merge_rel_def)
next
  assume "index_file fp mp src g = Inr g1"
  then show "\<exists>eqs ge. those (map entity_query (parse_entities fp mp src)) = Some eqs \<and>
         run_queries eqs g = Some ge \<and> nodes g1 = nodes ge"
    by (rule index_file_nodes_from_entities)
qed

theorem relationship_upsert_matches_existing_nodes_witness:
  "match_name (PStr ''os'') import_os_graph = [] \<and>
   match_merge_rel ''IMPORTS'' (PStr ''m'') (PStr ''os'') import_os_graph = import_os_graph \<and>
   index_file ''m.py'' ''m'' (Module import_os_body) empty_graph = Inr import_os_graph \<and>
   (\<exists>eqs ge.
      those (map entity_query (parse_entities ''m.py'' ''m'' (Module import_os_body))) = Some eqs \<and>
      run_queries eqs empty_graph = Some ge \<and> nodes import_os_graph = nodes ge)"
proof -
  have m: "match_name (PStr ''os'') import_os_graph = []"
    by (simp add: match_name_def import_os_graph_def has_name_def)
  show ?thesis
    using m index_import_os
      relationship_upsert_matches_existing_nodes
        [where l = "''IMPORTS''" and S = "PStr ''m''" and D = "PStr ''os''"
          and g = import_os_graph]
      relationship_upsert_matches_existing_nodes
        [where fp = "''m.py''" and mp = "''m''" and src = "Module import_os_body"
          and g = empty_graph and ?g1.0 = import_os_graph]
    by simp
qed

text \<open>
  The claim as stated fails: extraction of \<open>import os\<close> in module \<open>m\<close> gives the
  relationship IMPORTS from \<open>m\<close> to the external name \<open>os\<close>, and indexing the file
  into the empty graph leaves the two entity nodes and no relationship and no node
  for \<open>os\<close>.
\<close>

theorem external_import_target_is_dropped:
  "parse_relationships ''m.py'' ''m'' (Module import_os_body) = [RelInfo IMPORTS ''m'' ''os''] \<and>
   index_file ''m.py'' ''m'' (Module import_os_body) empty_graph = Inr import_os_graph \<and>
   rels import_os_graph = [] \<and>
   map label (nodes import_os_graph) = [''Module'', ''Import'']"
  by (simp add: index_import_os)
     (simp add: parse_relationships_def import_os_body_def import_os_graph_def parser_defs)


section \<open>The merge key of an entity\<close>

text \<open>
  C2. The code departs from the claim. In the module \<open>m\<close> of \<open>same_method_body\<close> the
  two methods named \<open>f\<close>, one of class \<open>A\<close> and one of class \<open>B\<close>, are two Method
  entities with the distinct ids \<open>m.A.f\<close> and \<open>m.B.f\<close>, yet \<open>index_file\<close> merges both
  under the key \<open>(Method, f)\<close>, because \<open>to_dict\<close> lets the property \<open>name\<close> replace
  the id, and the graph it leaves holds one Method node (and one Parameter node) for
  the two.
\<close>

theorem methods_share_a_merge_key:
  "map (\<lambda>e. (entity_type e, name e)) (parse_entities ''m.py'' ''m'' (Module same_method_body)) =
     [(MODULE, ''m''), (CLASS, ''m.A''), (METHOD, ''m.A.f''), (PARAMETER, ''m.A.f.param.self''),
      (CLASS, ''m.B''), (METHOD, ''m.B.f''), (PARAMETER, ''m.B.f.param.self'')] \<and>
   map merge_key (parse_entities ''m.py'' ''m'' (Module same_method_body)) =
     [Some (''Module'', PStr ''m''), Some (''Class'', PStr ''A''), Some (''Method'', PStr ''f''),
      Some (''Parameter'', PStr ''self''),
      Some (''Class'', PStr ''B''), Some (''Method'', PStr ''f''),
      Some (''Parameter'', PStr ''self'')] \<and>
   (case index_file ''m.py'' ''m'' (Module same_method_body) empty_graph of
      Inl e \<Rightarrow> []
    | Inr g \<Rightarrow> map label (nodes g)) =
     [''Module'', ''Class'', ''Method'', ''Parameter'', ''Class'']"
  by (simp add: parse_entities_def same_method_body_def empty_graph_def parser_defs
      merge_key_def store_defs EntInfo_def RelInfo_def)

text \<open>
  What does hold of the keys: an entity is merged under its type label and the value
  bound to \<open>$name\<close>. Two entities of any parsed files with different types have
  different keys; a Module, Import or Docstring entity is keyed by its type and its
  qualified id, so two of them with different ids have different keys. A class gets
  the id \<open>module_path.ClassName\<close> wherever in the module it stands.
\<close>

theorem merge_key_by_type_and_name:
  assumes "e1 \<in> set (parse_entities fp1 mp1 src1)"
    and "e2 \<in> set (parse_entities fp2 mp2 src2)"
  shows "(entity_type e1 \<noteq> entity_type e2 \<longrightarrow> merge_key e1 \<noteq> merge_key e2) \<and>
    (entity_type e1 \<in> {MODULE, IMPORT, DOCSTRING} \<longrightarrow>
       merge_key e1 = Some (entity_type_value (entity_type e1), PStr (name e1))) \<and>
    (entity_type e1 \<in> {MODULE, IMPORT, DOCSTRING} \<longrightarrow> entity_type e2 = entity_type e1 \<longrightarrow>
       name e1 \<noteq> name e2 \<longrightarrow> merge_key e1 \<noteq> merge_key e2) \<and>
    name (entities (visit mp (t, ClassDef cn bases decs body ln) init_parser) ! 0) =
      mp @ ''.'' @ cn"
proof -
  have p1: "parser_entity e1" using assms(1) by (rule parser_entity_parse_entities)
  have p2: "parser_entity e2" using assms(2) by (rule parser_entity_parse_entities)
  from merge_key_parser_entity [OF p1] obtain v1 where
    k1: "merge_key e1 = Some (entity_type_value (entity_type e1), v1)"
    and n1: "''name'' \<notin> fst ` set (properties e1) \<longrightarrow> v1 = PStr (name e1)" by blast
  from merge_key_parser_entity [OF p2] obtain v2 where
    k2: "merge_key e2 = Some (entity_type_value (entity_type e2), v2)"
    and n2: "''name'' \<notin> fst ` set (properties e2) \<longrightarrow> v2 = PStr (name e2)" by blast
  have a: "entity_type e1 \<noteq> entity_type e2 \<longrightarrow> merge_key e1 \<noteq> merge_key e2"
    using k1 k2 entity_type_value_inj by auto
  have b: "entity_type e1 \<in> {MODULE, IMPORT, DOCSTRING} \<longrightarrow>
       merge_key e1 = Some (entity_type_value (entity_type e1), PStr (name e1))"
    using k1 n1 p1 by (auto simp: parser_entity_def)
  have c: "entity_type e1 \<in> {MODULE, IMPORT, DOCSTRING} \<longrightarrow> entity_type e2 = entity_type e1 \<longrightarrow>
       name e1 \<noteq> name e2 \<longrightarrow> merge_key e1 \<noteq> merge_key e2"
    using k1 k2 n1 n2 p1 p2 by (auto simp: parser_entity_def)
  have d: "name (entities (visit mp (t, ClassDef cn bases decs body ln) init_parser) ! 0) =
      mp @ ''.'' @ cn"
    by (simp add: entities_parse_class EntInfo_def)
  from a b c d show ?thesis by blast
qed

theorem merge_key_by_type_and_name_witness:
  "EntInfo MODULE ''pkg.mod'' 1
     [(''path'', PStr ''pkg.mod''), (''file_path'', PStr ''pkg/mod.py''),
      (''docstring'', PStr [])]
     \<in> set (parse_entities ''pkg/mod.py'' ''pkg.mod'' (Module example_body)) \<and>
   EntInfo DOCSTRING ''pkg.mod.Foo.bar.docstring'' 2 [(''content'', PStr ''doc'')]
     \<in> set (parse_entities ''pkg/mod.py'' ''pkg.mod'' (Module example_body)) \<and>
   merge_key (EntInfo MODULE ''pkg.mod'' 1
     [(''path'', PStr ''pkg.mod''), (''file_path'', PStr ''pkg/mod.py''),
      (''docstring'', PStr [])]) = Some (''Module'', PStr ''pkg.mod'') \<and>
   merge_key (EntInfo MODULE ''pkg.mod'' 1
     [(''path'', PStr ''pkg.mod''), (''file_path'', PStr ''pkg/mod.py''),
      (''docstring'', PStr [])]) \<noteq>
   merge_key (EntInfo DOCSTRING ''pkg.mod.Foo.bar.docstring'' 2 [(''content'', PStr ''doc'')])"
proof -
  let ?m = "EntInfo MODULE ''pkg.mod'' 1
     [(''path'', PStr ''pkg.mod''), (''file_path'', PStr ''pkg/mod.py''),
      (''docstring'', PStr [])]"
  let ?d = "EntInfo DOCSTRING ''pkg.mod.Foo.bar.docstring'' 2 [(''content'', PStr ''doc'')]"
  have m: "?m \<in> set (parse_entities ''pkg/mod.py'' ''pkg.mod'' (Module example_body))"
    by (simp add: parse_entities_def example_body_def parser_defs)
  have d: "?d \<in> set (parse_entities ''pkg/mod.py'' ''pkg.mod'' (Module example_body))"
    by (simp add: parse_entities_def example_body_def parser_defs)
  show ?thesis
    using m d
      merge_key_by_type_and_name
        [OF m d, where mp = "''m''" and t = True and cn = "''C''" and bases = "[]"
          and decs = "[]" and body = "[]" and ln = 1]
    by (auto simp: EntInfo_def)
qed

text \<open>
  Likewise the two classes named \<open>Inner\<close>, one inside class \<open>A\<close> and one inside class
  \<open>B\<close> of module \<open>m\<close>, are two entities with the same id and the same merge key.
\<close>

theorem nested_classes_share_a_key:
  "parse_entities ''m.py'' ''m'' (Module nested_classes_body) ! 3 =
     EntInfo CLASS ''m.Inner'' 2
       [(''name'', PStr ''Inner''), (''module_path'', PStr ''m''), (''docstring'', PStr []),
        (''is_abstract'', PBool False)] \<and>
   parse_entities ''m.py'' ''m'' (Module nested_classes_body) ! 4 =
     EntInfo CLASS ''m.Inner'' 4
       [(''name'', PStr ''Inner''), (''module_path'', PStr ''m''), (''docstring'', PStr []),
        (''is_abstract'', PBool False)] \<and>
   merge_key (parse_entities ''m.py'' ''m'' (Module nested_classes_body) ! 3) =
     Some (''Class'', PStr ''Inner'') \<and>
   merge_key (parse_entities ''m.py'' ''m'' (Module nested_classes_body) ! 4) =
     Some (''Class'', PStr ''Inner'')"
  by (simp add: parse_entities_def nested_classes_body_def parser_defs merge_key_def
      entity_query_def to_dict_def dict_update_def dict_pop_def EntInfo_def)

section \<open>The indexing job\<close>

text \<open>
  C3, as amended. For a job over five discovered files of which exactly the third
  raises on extraction, the client of the store being obtained, the coordinator
  indexes the fourth and fifth on the graph the first two left, the job ends completed
  with no error, and it reports five files processed out of five in total; it keeps
  no count of files that succeeded or failed.
\<close>

theorem fault_isolation_five_files:
  "\<exists>g1 g2 g4 g5.
     index_file p1 m1 (Module b1) g = Inr g1 \<and>
     index_file p2 m2 (Module b2) g1 = Inr g2 \<and>
     index_file p3 m3 SyntaxError g2 = Inl IndexerError \<and>
     index_file p4 m4 (Module b4) g2 = Inr g4 \<and>
     index_file p5 m5 (Module b5) g4 = Inr g5 \<and>
     index_repository jid t0 t1
       (Inr [(p1, m1, Module b1), (p2, m2, Module b2), (p3, m3, SyntaxError),
             (p4, m4, Module b4), (p5, m5, Module b5)]) None g =
       (\<lparr>job_id = jid, status = COMPLETED, started_at = t0, completed_at = Some t1,
         files_processed = 5, total_files = 5, error = None\<rparr>,
        Inr [(''success'', PBool True), (''job_id'', PStr jid),
             (''files_processed'', PInt 5), (''total_files'', PInt 5)],
        g5)"
proof -
  obtain g1 where 1: "index_file p1 m1 (Module b1) g = Inr g1"
    using index_file_total by blast
  obtain g2 where 2: "index_file p2 m2 (Module b2) g1 = Inr g2"
    using index_file_total by blast
  have 3: "index_file p3 m3 SyntaxError g2 = Inl IndexerError"
    by (rule index_syntax_error)
  obtain g4 where 4: "index_file p4 m4 (Module b4) g2 = Inr g4"
    using index_file_total by blast
  obtain g5 where 5: "index_file p5 m5 (Module b5) g4 = Inr g5"
    using index_file_total by blast
  have "index_repository jid t0 t1
       (Inr [(p1, m1, Module b1), (p2, m2, Module b2), (p3, m3, SyntaxError),
             (p4, m4, Module b4), (p5, m5, Module b5)]) None g =
       (\<lparr>job_id = jid, status = COMPLETED, started_at = t0, completed_at = Some t1,
         files_processed = 5, total_files = 5, error = None\<rparr>,
        Inr [(''success'', PBool True), (''job_id'', PStr jid),
             (''files_processed'', PInt 5), (''total_files'', PInt 5)],
        g5)"
    by (simp add: index_repository_def index_step_def enumerate_eq_zip Let_def 1 2 3 4 5)
  with 1 2 3 4 5 show ?thesis by blast
qed

text \<open>
  The claim as stated fails: for the five files of \<open>five_files\<close> the job and the
  dictionary returned hold \<open>files_processed = 5\<close> and \<open>total_files = 5\<close> and nothing
  else that counts files; no entry counts four successes or one failure.
\<close>

theorem job_reports_no_success_or_failure_count:
  "index_repository ''job'' 0 1 (Inr five_files) None empty_graph =
     (\<lparr>job_id = ''job'', status = COMPLETED, started_at = 0, completed_at = Some 1,
       files_processed = 5, total_files = 5, error = None\<rparr>,
      Inr [(''success'', PBool True), (''job_id'', PStr ''job''),
           (''files_processed'', PInt 5), (''total_files'', PInt 5)],
      \<lparr>nodes = [module_node ''a'' ''a.py'', module_node ''b'' ''b.py'',
                module_node ''d'' ''d.py'', module_node ''e'' ''e.py''],
       rels = []\<rparr>) \<and>
   map_of [(''success'', PBool True), (''job_id'', PStr ''job''),
           (''files_processed'', PInt 5), (''total_files'', PInt 5)] ''files_succeeded'' = None \<and>
   map_of [(''success'', PBool True), (''job_id'', PStr ''job''),
           (''files_processed'', PInt 5), (''total_files'', PInt 5)] ''files_failed'' = None"
  by (simp add: index_repository_def five_files_def empty_graph_def index_step_def
      index_empty_module index_syntax_error enumerate_eq_zip merge_entity_def has_name_def
      set_props_def module_node_def Let_def)

end
